theory Spec2Isabelle
  imports Complex_Main "HOL-Library.AList"
begin

section \<open>Python values used by the FireCrawl loader\<close>

text \<open>
  The loader (\<^verbatim>\<open>backend/open_webui/retrieval/loaders/firecrawl.py\<close>) is a client of an
  HTTP service: it builds requests, decodes JSON answers and turns them into documents.
  Strings are lists of code points; the model covers the code points below 256. A JSON
  number is decoded to an \<^verbatim>\<open>int\<close>, which is unbounded, or to a \<^verbatim>\<open>float\<close>. A float is
  modelled by the rational it stands for: the rounding of floats and the float values that
  are no numbers are outside the model, the range of the floats is not (see the division
  below). A JSON object is the list of its items in the order of the Python \<^verbatim>\<open>dict\<close>,
  whose keys are distinct.
\<close>

datatype json =
    JNull
  | JBool bool
  | JInt int
  | JFloat rat
  | JStr string
  | JList "json list"
  | JObj "(string \<times> json) list"

text \<open>Truth value testing (\<^verbatim>\<open>not x\<close>, \<^verbatim>\<open>if x\<close>) of a decoded JSON value.\<close>

fun truthy :: "json \<Rightarrow> bool" where
  "truthy JNull = False"
| "truthy (JBool b) = b"
| "truthy (JInt i) = (i \<noteq> 0)"
| "truthy (JFloat r) = (r \<noteq> 0)"
| "truthy (JStr s) = (s \<noteq> [])"
| "truthy (JList xs) = (xs \<noteq> [])"
| "truthy (JObj kvs) = (kvs \<noteq> [])"

text \<open>
  \<^verbatim>\<open>ExtractUrlMode\<close> is imported from \<^verbatim>\<open>open_webui.models.knowledge\<close>.
  Modelled from the spec: the enumeration \<^verbatim>\<open>ExtractUrlMode\<close>, whose declaration is not among
  the sources; the spec gives it the two members \<^verbatim>\<open>SCRAPE\<close> and \<^verbatim>\<open>CRAWL\<close>. Python does
  not enforce the annotation of the constructor's \<^verbatim>\<open>mode\<close> argument, so \<open>Unknown m\<close> stands
  for any other value, one that compares unequal to both members.
\<close>

datatype ExtractUrlMode = SCRAPE | CRAWL | Unknown string

text \<open>
  A string that the code formats (an f-string, the message of an exception) is kept as the
  list of its fragments: literal text, and \<^verbatim>\<open>str()\<close> of an interpolated value, which is not
  computed. Format specifications (\<^verbatim>\<open>:.0f\<close>) are dropped. The exceptions are those the
  loader raises itself and those of the calls it makes: \<open>HTTPError\<close> carries the status
  code of the response, \<open>RequestException\<close> is any failure of \<^verbatim>\<open>requests\<close> to produce
  a response, \<open>JSONDecodeError\<close> a body that is no JSON, \<open>ValidationError\<close> the refusal of
  \<^verbatim>\<open>Document\<close> to take a page content that is no string; \<open>OverflowError\<close> and
  \<open>ZeroDivisionError\<close> are those of the division.
\<close>

datatype error =
    ValueError string
  | HTTPError nat
  | RequestException
  | JSONDecodeError
  | AttributeError
  | TypeError
  | ValidationError
  | OverflowError
  | ZeroDivisionError
  | Exception "fragment list"
and fragment =
    Lit string
  | Str json
  | StrMode ExtractUrlMode
  | StrErr error

text \<open>\<^verbatim>\<open>str(v)\<close> inside an f-string: a string is its own text.\<close>

definition str_of :: "json \<Rightarrow> fragment" where
  "str_of v = (case v of JStr s \<Rightarrow> Lit s | _ \<Rightarrow> Str v)"

text \<open>\<^verbatim>\<open>d.get(key, default)\<close>: only a \<^verbatim>\<open>dict\<close> has the method.\<close>

fun py_get :: "json \<Rightarrow> string \<Rightarrow> json \<Rightarrow> error + json" where
  "py_get (JObj kvs) k d = Inr (case map_of kvs k of None \<Rightarrow> d | Some v \<Rightarrow> v)"
| "py_get _ k d = Inl AttributeError"

subsection \<open>String methods\<close>

text \<open>\<^verbatim>\<open>str.isspace\<close> on one code point below 256.\<close>

definition isspace :: "char \<Rightarrow> bool" where
  "isspace c = (of_char c \<in> {9, 10, 11, 12, 13, 28, 29, 30, 31, 32, 133, 160 :: nat})"

text \<open>\<^verbatim>\<open>s.strip()\<close>, \<^verbatim>\<open>s.lstrip(chars)\<close>, \<^verbatim>\<open>s.rstrip(chars)\<close>, \<^verbatim>\<open>s.strip(chars)\<close>.\<close>

definition strip :: "string \<Rightarrow> string" where
  "strip s = rev (dropWhile isspace (rev (dropWhile isspace s)))"

definition lstrip_chars :: "string \<Rightarrow> string \<Rightarrow> string" where
  "lstrip_chars s chars = dropWhile (\<lambda>c. c \<in> set chars) s"

definition rstrip_chars :: "string \<Rightarrow> string \<Rightarrow> string" where
  "rstrip_chars s chars = rev (dropWhile (\<lambda>c. c \<in> set chars) (rev s))"

definition strip_chars :: "string \<Rightarrow> string \<Rightarrow> string" where
  "strip_chars s chars = rstrip_chars (lstrip_chars s chars) chars"

definition startswith :: "string \<Rightarrow> string \<Rightarrow> bool" where
  "startswith s p = (take (length p) s = p)"

text \<open>
  \<^verbatim>\<open>s.replace(old, new)\<close> replaces every occurrence of \<^verbatim>\<open>old\<close>, from the left and without
  overlap; with an empty \<^verbatim>\<open>old\<close> it puts \<^verbatim>\<open>new\<close> around every character.
\<close>

fun replace :: "string \<Rightarrow> string \<Rightarrow> string \<Rightarrow> string" where
  "replace [] old new = (if old = [] then new else [])"
| "replace (c # cs) old new =
     (if old = [] then new @ c # replace cs old new
      else if startswith (c # cs) old then new @ replace (drop (length old) (c # cs)) old new
      else c # replace cs old new)"

text \<open>\<^verbatim>\<open>s.split(sep)\<close> for a separator of one character, and \<^verbatim>\<open>sep.join(xs)\<close>.\<close>

fun split_on :: "char \<Rightarrow> string \<Rightarrow> string list" where
  "split_on sep [] = [[]]"
| "split_on sep (c # cs) =
     (if c = sep then [] # split_on sep cs
      else (case split_on sep cs of [] \<Rightarrow> [[c]] | x # xs \<Rightarrow> (c # x) # xs))"

fun join :: "string \<Rightarrow> string list \<Rightarrow> string" where
  "join sep [] = []"
| "join sep [x] = x"
| "join sep (x # y # ys) = x @ sep @ join sep (y # ys)"

text \<open>\<^verbatim>\<open>s.split(sep, 1)\<close> where \<^verbatim>\<open>sep\<close> occurs in \<^verbatim>\<open>s\<close>: the text before and after the first one.\<close>

definition split_first :: "char \<Rightarrow> string \<Rightarrow> string \<times> string" where
  "split_first sep s = (takeWhile (\<lambda>c. c \<noteq> sep) s, drop 1 (dropWhile (\<lambda>c. c \<noteq> sep) s))"

section \<open>The surroundings of the loader\<close>

text \<open>
  What the loader cannot decide is given by its environment: the outcome of the \<open>n\<close>-th
  HTTP request it makes, the value of the \<open>n\<close>-th reading of \<^verbatim>\<open>time.time()\<close>, and the
  verdict of \<^verbatim>\<open>urllib.parse\<close> on a host written in brackets (the check made with
  \<^verbatim>\<open>ipaddress\<close>: the message of the \<^verbatim>\<open>ValueError\<close>, or \<open>None\<close> for a valid host).
  An outcome is either no response at all (\<^verbatim>\<open>requests\<close> raises) or a response with a
  status code and a body, decoded where it is JSON.
\<close>

datatype response = NoResponse | Response nat "json option"

record env =
  service :: "nat \<Rightarrow> response"
  clock :: "nat \<Rightarrow> real"
  check_bracketed_host :: "string \<Rightarrow> string option"

subsection \<open>\<^verbatim>\<open>urllib.parse.urljoin\<close>\<close>

text \<open>
  The functions of Python 3.11's \<^verbatim>\<open>urllib/parse.py\<close> that \<^verbatim>\<open>urljoin\<close> runs through, for
  \<^verbatim>\<open>str\<close> arguments and \<^verbatim>\<open>allow_fragments=True\<close>. The check of a netloc that is not
  ASCII (\<^verbatim>\<open>_checknetloc\<close>) rejects no code point below 256 and is left out.
\<close>

definition uses_relative :: "string list" where
  "uses_relative = [[], ''ftp'', ''http'', ''gopher'', ''nntp'', ''imap'',
     ''wais'', ''file'', ''https'', ''shttp'', ''mms'',
     ''prospero'', ''rtsp'', ''rtsps'', ''rtspu'', ''sftp'',
     ''svn'', ''svn+ssh'', ''ws'', ''wss'']"

definition uses_netloc :: "string list" where
  "uses_netloc = [[], ''ftp'', ''http'', ''gopher'', ''nntp'', ''telnet'',
     ''imap'', ''wais'', ''file'', ''mms'', ''https'', ''shttp'',
     ''snews'', ''prospero'', ''rtsp'', ''rtsps'', ''rtspu'', ''rsync'',
     ''svn'', ''svn+ssh'', ''sftp'', ''nfs'', ''git'', ''git+ssh'',
     ''ws'', ''wss'']"

definition uses_params :: "string list" where
  "uses_params = [[], ''ftp'', ''hdl'', ''prospero'', ''http'', ''imap'',
     ''https'', ''shttp'', ''rtsp'', ''rtsps'', ''rtspu'', ''sip'',
     ''sips'', ''mms'', ''sftp'', ''tel'']"

definition ascii_uppercase :: string where
  "ascii_uppercase = ''ABCDEFGHIJKLMNOPQRSTUVWXYZ''"

definition ascii_lowercase :: string where
  "ascii_lowercase = ''abcdefghijklmnopqrstuvwxyz''"

definition scheme_chars :: string where
  "scheme_chars = ascii_lowercase @ ascii_uppercase @ ''0123456789'' @ ''+-.''"

text \<open>\<^verbatim>\<open>c.isascii() and c.isalpha()\<close>, and \<^verbatim>\<open>lower()\<close> of an ASCII character.\<close>

definition ascii_alpha :: "char \<Rightarrow> bool" where
  "ascii_alpha c = (c \<in> set (ascii_lowercase @ ascii_uppercase))"

definition ascii_lower :: "char \<Rightarrow> char" where
  "ascii_lower c = (case map_of (zip ascii_uppercase ascii_lowercase) c of None \<Rightarrow> c | Some d \<Rightarrow> d)"

text \<open>\<^verbatim>\<open>_WHATWG_C0_CONTROL_OR_SPACE\<close> and \<^verbatim>\<open>_UNSAFE_URL_BYTES_TO_REMOVE\<close>.\<close>

definition c0_control_or_space :: "char \<Rightarrow> bool" where
  "c0_control_or_space c = (of_char c \<le> (32 :: nat))"

definition unsafe_url_byte :: "char \<Rightarrow> bool" where
  "unsafe_url_byte c = (of_char c \<in> {9, 13, 10 :: nat})"

text \<open>\<^verbatim>\<open>_splitnetloc(url, start)\<close>: the netloc ends at the first of \<^verbatim>\<open>/?#\<close>.\<close>

definition splitnetloc :: "string \<Rightarrow> nat \<Rightarrow> string \<times> string" where
  "splitnetloc url start =
     (takeWhile (\<lambda>c. c \<notin> set ''/?#'') (drop start url),
      dropWhile (\<lambda>c. c \<notin> set ''/?#'') (drop start url))"

text \<open>\<^verbatim>\<open>netloc.partition('[')[2].partition(']')[0]\<close>.\<close>

definition bracketed_host :: "string \<Rightarrow> string" where
  "bracketed_host netloc =
     takeWhile (\<lambda>c. c \<noteq> CHR '']'') (drop 1 (dropWhile (\<lambda>c. c \<noteq> CHR ''['') netloc))"

text \<open>\<^verbatim>\<open>urlsplit(url, scheme)\<close>: scheme, netloc, path, query, fragment.\<close>

definition urlsplit ::
  "env \<Rightarrow> string \<Rightarrow> string \<Rightarrow> error + (string \<times> string \<times> string \<times> string \<times> string)" where
  "urlsplit E url0 scheme0 =
     (let url = filter (\<lambda>c. \<not> unsafe_url_byte c) (dropWhile c0_control_or_space url0);
          scheme = filter (\<lambda>c. \<not> unsafe_url_byte c)
                     (rev (dropWhile c0_control_or_space (rev (dropWhile c0_control_or_space scheme0))));
          pre = takeWhile (\<lambda>c. c \<noteq> CHR '':'') url;
          (scheme, url) =
            (if CHR '':'' \<in> set url \<and> pre \<noteq> [] \<and> ascii_alpha (hd url)
                \<and> list_all (\<lambda>c. c \<in> set scheme_chars) pre
             then (map ascii_lower pre, drop (length pre + 1) url)
             else (scheme, url));
          (netloc, url) = (if take 2 url = ''//'' then splitnetloc url 2 else ([], url))
      in if (CHR ''['' \<in> set netloc \<and> CHR '']'' \<notin> set netloc)
            \<or> (CHR '']'' \<in> set netloc \<and> CHR ''['' \<notin> set netloc)
         then Inl (ValueError ''Invalid IPv6 URL'')
         else
           (case (if CHR ''['' \<in> set netloc \<and> CHR '']'' \<in> set netloc
                  then check_bracketed_host E (bracketed_host netloc) else None) of
              Some msg \<Rightarrow> Inl (ValueError msg)
            | None \<Rightarrow>
               (let (url, fragment) =
                      (if CHR ''#'' \<in> set url then split_first (CHR ''#'') url else (url, []));
                    (url, query) =
                      (if CHR ''?'' \<in> set url then split_first (CHR ''?'') url else (url, []))
                in Inr (scheme, netloc, url, query, fragment))))"

text \<open>\<^verbatim>\<open>_splitparams(url)\<close>, called where \<^verbatim>\<open>;\<close> occurs in \<^verbatim>\<open>url\<close>.\<close>

definition splitparams :: "string \<Rightarrow> string \<times> string" where
  "splitparams url =
     (if CHR ''/'' \<in> set url
      then (let tail = rev (takeWhile (\<lambda>c. c \<noteq> CHR ''/'') (rev url));
                front = take (length url - length tail) url
            in if CHR '';'' \<in> set tail
               then (front @ takeWhile (\<lambda>c. c \<noteq> CHR '';'') tail,
                     drop 1 (dropWhile (\<lambda>c. c \<noteq> CHR '';'') tail))
               else (url, []))
      else split_first (CHR '';'') url)"

text \<open>\<^verbatim>\<open>urlparse(url, scheme)\<close>: scheme, netloc, path, params, query, fragment.\<close>

definition urlparse ::
  "env \<Rightarrow> string \<Rightarrow> string
     \<Rightarrow> error + (string \<times> string \<times> string \<times> string \<times> string \<times> string)" where
  "urlparse E url scheme0 =
     (case urlsplit E url scheme0 of
        Inl e \<Rightarrow> Inl e
      | Inr (scheme, netloc, url, query, fragment) \<Rightarrow>
          (let (url, params) =
                 (if scheme \<in> set uses_params \<and> CHR '';'' \<in> set url
                  then splitparams url else (url, []))
           in Inr (scheme, netloc, url, params, query, fragment)))"

fun urlunsplit :: "string \<times> string \<times> string \<times> string \<times> string \<Rightarrow> string" where
  "urlunsplit (scheme, netloc, url, query, fragment) =
     (let url = (if netloc \<noteq> [] \<or> (scheme \<noteq> [] \<and> scheme \<in> set uses_netloc) \<or> take 2 url = ''//''
                 then ''//'' @ netloc @ (if url \<noteq> [] \<and> take 1 url \<noteq> ''/'' then ''/'' @ url else url)
                 else url);
          url = (if scheme \<noteq> [] then scheme @ '':'' @ url else url);
          url = (if query \<noteq> [] then url @ ''?'' @ query else url);
          url = (if fragment \<noteq> [] then url @ ''#'' @ fragment else url)
      in url)"

fun urlunparse :: "string \<times> string \<times> string \<times> string \<times> string \<times> string \<Rightarrow> string" where
  "urlunparse (scheme, netloc, url, params, query, fragment) =
     urlunsplit (scheme, netloc, if params \<noteq> [] then url @ '';'' @ params else url, query, fragment)"

text \<open>
  The three list operations of \<^verbatim>\<open>urljoin\<close>: \<^verbatim>\<open>segments[1:-1] = filter(None, segments[1:-1])\<close>,
  the loop that resolves \<^verbatim>\<open>.\<close> and \<^verbatim>\<open>..\<close> (a \<^verbatim>\<open>pop\<close> from the empty list is ignored), and
  the removal of a last base part that is no directory.
\<close>

definition filter_inner :: "string list \<Rightarrow> string list" where
  "filter_inner segments =
     (if length segments < 2 then segments
      else hd segments # filter (\<lambda>seg. seg \<noteq> []) (butlast (tl segments)) @ [last segments])"

definition resolve_segments :: "string list \<Rightarrow> string list" where
  "resolve_segments segments =
     foldl (\<lambda>resolved_path seg.
              if seg = ''..'' then butlast resolved_path
              else if seg = ''.'' then resolved_path
              else resolved_path @ [seg]) [] segments"

definition urljoin :: "env \<Rightarrow> string \<Rightarrow> string \<Rightarrow> error + string" where
  "urljoin E base url =
     (if base = [] then Inr url
      else if url = [] then Inr base
      else
        (case urlparse E base [] of
           Inl e \<Rightarrow> Inl e
         | Inr (bscheme, bnetloc, bpath, bparams, bquery, bfragment) \<Rightarrow>
        (case urlparse E url bscheme of
           Inl e \<Rightarrow> Inl e
         | Inr (scheme, netloc, path, params, query, fragment) \<Rightarrow>
             if scheme \<noteq> bscheme \<or> scheme \<notin> set uses_relative then Inr url
             else if scheme \<in> set uses_netloc \<and> netloc \<noteq> []
             then Inr (urlunparse (scheme, netloc, path, params, query, fragment))
             else
               (let netloc = (if scheme \<in> set uses_netloc then bnetloc else netloc)
                in if path = [] \<and> params = []
                   then Inr (urlunparse (scheme, netloc, bpath, bparams,
                               if query = [] then bquery else query, fragment))
                   else
                     (let base_parts = split_on (CHR ''/'') bpath;
                          base_parts = (if last base_parts \<noteq> [] then butlast base_parts
                                        else base_parts);
                          segments = (if take 1 path = ''/'' then split_on (CHR ''/'') path
                                      else filter_inner (base_parts @ split_on (CHR ''/'') path));
                          resolved_path = resolve_segments segments;
                          resolved_path = (if last segments = ''.'' \<or> last segments = ''..''
                                           then resolved_path @ [[]] else resolved_path);
                          joined = join ''/'' resolved_path
                      in Inr (urlunparse (scheme, netloc, if joined = [] then ''/'' else joined,
                                params, query, fragment)))))))"

section \<open>The loader\<close>

subsection \<open>State and effects\<close>

text \<open>
  The effects of the loader are its HTTP requests, its readings of the clock, its sleeps
  and its log records. The state lists them in the order they happen: the requests sent
  (a \<^verbatim>\<open>POST\<close> with its address, headers, JSON payload and timeout, a \<^verbatim>\<open>GET\<close> with its
  address and headers), the number of clock readings, the durations slept and the records
  logged, each with its level.
\<close>

datatype level = DEBUG | INFO | WARNING | ERROR

datatype request =
    POST string "(string \<times> string) list" json nat
  | GET string "(string \<times> string) list"

record world =
  sent :: "request list"
  reads :: nat
  slept :: "nat list"
  logged :: "(level \<times> fragment list) list"

text \<open>\<^verbatim>\<open>log.debug\<close>, \<^verbatim>\<open>log.info\<close>, \<^verbatim>\<open>log.warning\<close>, \<^verbatim>\<open>log.error\<close>.\<close>

definition emit :: "level \<Rightarrow> fragment list \<Rightarrow> world \<Rightarrow> world" where
  "emit lv msg w = w\<lparr>logged := logged w @ [(lv, msg)]\<rparr>"

definition time_time :: "env \<Rightarrow> world \<Rightarrow> real \<times> world" where
  "time_time E w = (clock E (reads w), w\<lparr>reads := Suc (reads w)\<rparr>)"

definition time_sleep :: "nat \<Rightarrow> world \<Rightarrow> world" where
  "time_sleep secs w = w\<lparr>slept := slept w @ [secs]\<rparr>"

text \<open>
  The three statements that follow each other at every request of the loader:
  \<^verbatim>\<open>response = requests.post(...)\<close> (or \<^verbatim>\<open>get\<close>), \<^verbatim>\<open>response.raise_for_status()\<close>, which
  raises for the status codes from 400 to 599, and \<^verbatim>\<open>response.json()\<close>.
\<close>

definition send_json :: "env \<Rightarrow> request \<Rightarrow> world \<Rightarrow> (error + json) \<times> world" where
  "send_json E rq w =
     (case service E (length (sent w)) of
        NoResponse \<Rightarrow> Inl RequestException
      | Response status_code body \<Rightarrow>
          if 400 \<le> status_code \<and> status_code < 600 then Inl (HTTPError status_code)
          else (case body of None \<Rightarrow> Inl JSONDecodeError | Some j \<Rightarrow> Inr j),
      w\<lparr>sent := sent w @ [rq]\<rparr>)"

subsection \<open>Documents\<close>

text \<open>
  A value of a document's metadata is a decoded JSON value or \<^verbatim>\<open>str(v)\<close> of one, which is
  a string and is not computed, except that \<^verbatim>\<open>str\<close> of a string is that string.
  \<^verbatim>\<open>Document\<close> is the class of \<^verbatim>\<open>langchain_core\<close>, whose \<^verbatim>\<open>page_content\<close> is declared a
  \<^verbatim>\<open>str\<close>.
\<close>

datatype pyval = Val json | StrOf json

definition py_str :: "json \<Rightarrow> pyval" where
  "py_str v = (case v of JStr s \<Rightarrow> Val (JStr s) | _ \<Rightarrow> StrOf v)"

fun is_str :: "pyval \<Rightarrow> bool" where
  "is_str (StrOf v) = True"
| "is_str (Val v) = (case v of JStr s \<Rightarrow> True | _ \<Rightarrow> False)"

record document =
  page_content :: string
  metadata :: "(string \<times> pyval) list"

text \<open>\<^verbatim>\<open>d.get(key, default)\<close> and \<^verbatim>\<open>d[key] = value\<close> on the items of a \<^verbatim>\<open>dict\<close>.\<close>

definition dict_get :: "(string \<times> 'v) list \<Rightarrow> string \<Rightarrow> 'v \<Rightarrow> 'v" where
  "dict_get d k dflt = (case map_of d k of None \<Rightarrow> dflt | Some v \<Rightarrow> v)"

definition dict_set :: "(string \<times> 'v) list \<Rightarrow> string \<Rightarrow> 'v \<Rightarrow> (string \<times> 'v) list" where
  "dict_set d k v = AList.update k v d"

subsection \<open>Construction\<close>

record FireCrawlLoader =
  api_key :: string
  api_url :: string
  urls :: "string list"
  mode :: ExtractUrlMode
  scrape_options :: "(string \<times> json) list"
  crawl_options :: "(string \<times> json) list"

text \<open>The \<^verbatim>\<open>urls\<close> argument of the constructor is one string or a list of strings.\<close>

datatype urls_arg = One string | Many "string list"

definition default_scrape_options :: "(string \<times> json) list" where
  "default_scrape_options =
     [(''formats'', JList [JStr ''markdown'']),
      (''onlyMainContent'', JBool True),
      (''waitFor'', JInt 500),
      (''removeBase64Images'', JBool True),
      (''excludeTags'', JList [JStr ''nav'', JStr ''footer'', JStr ''aside''])]"

definition default_crawl_options :: "(string \<times> json) list" where
  "default_crawl_options =
     [(''limit'', JInt 1000),
      (''maxDepth'', JInt 10),
      (''delay'', JFloat (1 / 10)),
      (''scrapeOptions'', JObj
         [(''formats'', JList [JStr ''markdown'']),
          (''onlyMainContent'', JBool True),
          (''excludeTags'', JList [JStr ''nav'', JStr ''footer'', JStr ''aside'']),
          (''waitFor'', JInt 0)])]"

text \<open>
  \<^verbatim>\<open>__init__(urls, api_key, api_url, mode)\<close>; the defaults of the last two arguments are
  \<^verbatim>\<open>"https://api.firecrawl.dev"\<close> and \<^verbatim>\<open>ExtractUrlMode.SCRAPE\<close>.
\<close>

definition init ::
  "urls_arg \<Rightarrow> string \<Rightarrow> string \<Rightarrow> ExtractUrlMode \<Rightarrow> error + FireCrawlLoader" where
  "init urls_a api_key_a api_url_a mode_a =
     (if (case urls_a of One u \<Rightarrow> u = [] | Many us \<Rightarrow> us = [])
      then Inl (ValueError ''At least one URL must be provided.'')
      else if api_key_a = []
      then Inl (ValueError ''FireCrawl API key must be provided.'')
      else Inr \<lparr>api_key = api_key_a,
                api_url = rstrip_chars api_url_a ''/'',
                urls = (case urls_a of Many us \<Rightarrow> us | One u \<Rightarrow> [u]),
                mode = mode_a,
                scrape_options = default_scrape_options,
                crawl_options = default_crawl_options\<rparr>)"

definition get_headers :: "FireCrawlLoader \<Rightarrow> (string \<times> string) list" where
  "get_headers L =
     [(''User-Agent'', ''Open WebUI (https://github.com/open-webui/open-webui) FireCrawl Loader''),
      (''Authorization'', ''Bearer '' @ api_key L),
      (''Content-Type'', ''application/json'')]"

text \<open>\<^verbatim>\<open>{"url": url, **options}\<close>.\<close>

definition payload_of :: "string \<Rightarrow> (string \<times> json) list \<Rightarrow> json" where
  "payload_of url options =
     JObj (foldl (\<lambda>d (k, v). dict_set d k v) [(''url'', JStr url)] options)"

subsection \<open>\<^verbatim>\<open>_scrape_url\<close>\<close>

text \<open>
  The body of the \<^verbatim>\<open>try\<close> in two parts. The first goes from the address of the endpoint to
  the extracted content: it returns the items of \<^verbatim>\<open>data\<close> and
  \<^verbatim>\<open>data.get("markdown", data.get("content", ""))\<close>. A value that is no \<^verbatim>\<open>dict\<close> has no
  \<^verbatim>\<open>get\<close>: the call raises \<^verbatim>\<open>AttributeError\<close>.
\<close>

definition scrape_extract ::
  "env \<Rightarrow> FireCrawlLoader \<Rightarrow> string \<Rightarrow> world
     \<Rightarrow> (error + (string \<times> json) list \<times> json) \<times> world" where
  "scrape_extract E L url w =
     (case urljoin E (api_url L) ''/v1/scrape'' of
        Inl e \<Rightarrow> (Inl e, w)
      | Inr scrape_url \<Rightarrow>
          (let payload = payload_of url (scrape_options L);
               w = emit DEBUG [Lit ''Scraping '', Lit url, Lit '' with options: '', Str payload] w;
               (result, w) = send_json E (POST scrape_url (get_headers L) payload 30) w
           in case result of
                Inl e \<Rightarrow> (Inl e, w)
              | Inr (JObj result) \<Rightarrow>
                  if \<not> truthy (dict_get result ''success'' (JBool False))
                  then
                    (let error_message =
                           dict_get result ''error'' (JStr ''Unknown error during scrape.'');
                         w = emit ERROR [Lit ''FireCrawl scrape failed for '', Lit url, Lit '': '',
                               str_of error_message] w
                     in (Inl (Exception [Lit ''FireCrawl scrape failed: '', str_of error_message]), w))
                  else
                    (case dict_get result ''data'' (JObj []) of
                       JObj data \<Rightarrow>
                         (Inr (data, dict_get data ''markdown'' (dict_get data ''content'' (JStr []))),
                          w)
                     | _ \<Rightarrow> (Inl AttributeError, w))
              | Inr _ \<Rightarrow> (Inl AttributeError, w)))"

text \<open>
  The metadata of a scraped page: first the loop over the items of the page's own
  metadata, where both branches of the test for a \<^verbatim>\<open>dict\<close> or \<^verbatim>\<open>list\<close> value store
  \<^verbatim>\<open>str(value)\<close>, then the whole. \<^verbatim>\<open>len(content)\<close> counts code points.
\<close>

definition add_scrape_metadata ::
  "(string \<times> pyval) list \<Rightarrow> (string \<times> json) list \<Rightarrow> (string \<times> pyval) list" where
  "add_scrape_metadata initial firecrawl_metadata =
     foldl (\<lambda>metadata (key, value).
              if key \<notin> set [''title'', ''description''] \<and> value \<noteq> JNull
              then (if (case value of JObj _ \<Rightarrow> True | JList _ \<Rightarrow> True | _ \<Rightarrow> False)
                    then dict_set metadata (''firecrawl_'' @ key) (py_str value)
                    else dict_set metadata (''firecrawl_'' @ key) (py_str value))
              else metadata)
       initial firecrawl_metadata"

definition scrape_metadata :: "string \<Rightarrow> (string \<times> json) list \<Rightarrow> string \<Rightarrow> (string \<times> pyval) list" where
  "scrape_metadata url data content =
     (let metadata =
            [(''source'', Val (JStr url)),
             (''url'', Val (JStr url)),
             (''firecrawl_mode'', Val (JStr ''scrape'')),
             (''content_length'', Val (JInt (int (length content))))]
      in case map_of data ''metadata'' of
           Some (JObj firecrawl_metadata) \<Rightarrow>
             (let metadata = dict_set metadata ''title''
                    (Val (dict_get firecrawl_metadata ''title'' (JStr [])));
                  metadata = dict_set metadata ''description''
                    (Val (dict_get firecrawl_metadata ''description'' (JStr [])))
              in add_scrape_metadata metadata firecrawl_metadata)
         | _ \<Rightarrow> metadata)"

text \<open>
  The second part of the \<^verbatim>\<open>try\<close>: from the test of the content to the result. A content
  that is true and no string has no \<^verbatim>\<open>strip\<close>.
\<close>

definition scrape_document ::
  "string \<Rightarrow> (string \<times> json) list \<Rightarrow> json \<Rightarrow> world \<Rightarrow> (error + document list) \<times> world" where
  "scrape_document url data content w =
     (if \<not> truthy content
      then (Inr [], emit WARNING [Lit ''No content extracted from URL: '', Lit url] w)
      else
        (case content of
           JStr s \<Rightarrow>
             if strip s = []
             then (Inr [], emit WARNING [Lit ''No content extracted from URL: '', Lit url] w)
             else (Inr [\<lparr>page_content = s, metadata = scrape_metadata url data s\<rparr>], w)
         | _ \<Rightarrow> (Inl AttributeError, w)))"

text \<open>
  The two \<^verbatim>\<open>except\<close> clauses log and raise again. The exception of \<^verbatim>\<open>raise_for_status\<close>
  carries a response that tests false, so the record ends with \<^verbatim>\<open>str(e)\<close>.
\<close>

definition scrape_except :: "string \<Rightarrow> error \<Rightarrow> world \<Rightarrow> world" where
  "scrape_except url e w =
     (case e of
        HTTPError status_code \<Rightarrow>
          emit ERROR [Lit ''HTTP error scraping '', Lit url, Lit '': '',
            Str (JInt (int status_code)), Lit '' - '', StrErr e] w
      | _ \<Rightarrow> emit ERROR [Lit ''Error scraping '', Lit url, Lit '': '', StrErr e] w)"

definition scrape_url ::
  "env \<Rightarrow> FireCrawlLoader \<Rightarrow> string \<Rightarrow> world \<Rightarrow> (error + document list) \<times> world" where
  "scrape_url E L url w =
     (let (r, w) =
            (case scrape_extract E L url w of
               (Inl e, w) \<Rightarrow> (Inl e, w)
             | (Inr (data, content), w) \<Rightarrow> scrape_document url data content w)
      in case r of
           Inl e \<Rightarrow> (Inl e, scrape_except url e w)
         | Inr docs \<Rightarrow> (Inr docs, w))"

subsection \<open>\<^verbatim>\<open>_collect_results_sync\<close>\<close>

text \<open>
  The metadata of a crawled page: the \<^verbatim>\<open>dict\<close> that the loop body builds first, and the
  loop over the items of the page's own metadata, which stores the values as they are.
\<close>

definition crawl_metadata ::
  "json \<Rightarrow> json \<Rightarrow> string \<Rightarrow> (string \<times> json) list \<Rightarrow> (string \<times> pyval) list" where
  "crawl_metadata firecrawl_job_id source_url original_url firecrawl_metadata =
     [(''source'', Val source_url),
      (''title'', Val (dict_get firecrawl_metadata ''title'' (JStr []))),
      (''description'', Val (dict_get firecrawl_metadata ''description'' (JStr []))),
      (''url'', Val source_url),
      (''firecrawl_mode'', Val (JStr ''crawl'')),
      (''job_id'', Val firecrawl_job_id),
      (''original_url'', Val (JStr original_url))]"

definition add_crawl_metadata ::
  "(string \<times> pyval) list \<Rightarrow> (string \<times> json) list \<Rightarrow> (string \<times> pyval) list" where
  "add_crawl_metadata initial firecrawl_metadata =
     foldl (\<lambda>metadata (key, value).
              if key \<notin> set (map fst metadata)
              then dict_set metadata (''firecrawl_'' @ key) (Val value)
              else metadata)
       initial firecrawl_metadata"

text \<open>
  One pass through the body of the \<^verbatim>\<open>for\<close> loop: \<open>None\<close> for \<^verbatim>\<open>continue\<close>, the document
  to append otherwise. \<^verbatim>\<open>item.get("metadata", {}).get(...)\<close> is evaluated for the title and
  the description, so a metadata that is no \<^verbatim>\<open>dict\<close> raises before the test for it.
\<close>

definition collect_item ::
  "json \<Rightarrow> json \<Rightarrow> string \<Rightarrow> world \<Rightarrow> (error + document option) \<times> world" where
  "collect_item firecrawl_job_id item original_url w =
     (case item of
        JObj item \<Rightarrow>
          (let content = dict_get item ''markdown'' (dict_get item ''content'' (JStr []));
               source_url = dict_get item ''sourceURL'' (JStr original_url)
           in if \<not> truthy content
              then (Inr None,
                    emit WARNING [Lit ''No content found for crawled page from job '',
                      str_of firecrawl_job_id, Lit '': '', str_of source_url] w)
              else
                (case dict_get item ''metadata'' (JObj []) of
                   JObj firecrawl_metadata \<Rightarrow>
                     (let metadata = crawl_metadata firecrawl_job_id source_url original_url
                                       firecrawl_metadata;
                          metadata =
                            (if ''metadata'' \<in> set (map fst item)
                             then add_crawl_metadata metadata firecrawl_metadata
                             else metadata)
                      in case content of
                           JStr s \<Rightarrow> (Inr (Some \<lparr>page_content = s, metadata = metadata\<rparr>), w)
                         | _ \<Rightarrow> (Inl ValidationError, w))
                 | _ \<Rightarrow> (Inl AttributeError, w)))
      | _ \<Rightarrow> (Inl AttributeError, w))"

text \<open>
  \<^verbatim>\<open>for item in crawled_pages_data\<close>: a list gives its elements, a \<^verbatim>\<open>dict\<close> its keys, a
  string its characters; nothing else can be iterated.
\<close>

fun iterate :: "json \<Rightarrow> error + json list" where
  "iterate (JList xs) = Inr xs"
| "iterate (JObj kvs) = Inr (map (\<lambda>kv. JStr (fst kv)) kvs)"
| "iterate (JStr s) = Inr (map (\<lambda>c. JStr [c]) s)"
| "iterate _ = Inl TypeError"

fun collect_loop ::
  "json \<Rightarrow> json list \<Rightarrow> string \<Rightarrow> document list \<Rightarrow> world \<Rightarrow> (error + document list) \<times> world" where
  "collect_loop firecrawl_job_id [] original_url documents w = (Inr documents, w)"
| "collect_loop firecrawl_job_id (item # items) original_url documents w =
     (case collect_item firecrawl_job_id item original_url w of
        (Inl e, w) \<Rightarrow> (Inl e, w)
      | (Inr None, w) \<Rightarrow> collect_loop firecrawl_job_id items original_url documents w
      | (Inr (Some doc), w) \<Rightarrow>
          collect_loop firecrawl_job_id items original_url (documents @ [doc]) w)"

definition collect_results_sync ::
  "json \<Rightarrow> json \<Rightarrow> string \<Rightarrow> world \<Rightarrow> (error + document list) \<times> world" where
  "collect_results_sync firecrawl_job_id crawled_pages_data original_url w =
     (let w = emit INFO [Lit ''Processing collected data for completed FireCrawl job '',
                str_of firecrawl_job_id, Lit '' from '', Lit original_url] w
      in if \<not> truthy crawled_pages_data
         then (Inr [],
               emit WARNING [Lit ''No data provided to _collect_results_sync for FireCrawl job '',
                 str_of firecrawl_job_id, Lit '' (URL: '', Lit original_url, Lit '')''] w)
         else
           (case iterate crawled_pages_data of
              Inl e \<Rightarrow> (Inl e, w)
            | Inr items \<Rightarrow>
                (case collect_loop firecrawl_job_id items original_url [] w of
                   (Inl e, w) \<Rightarrow> (Inl e, w)
                 | (Inr documents, w) \<Rightarrow>
                     (Inr documents,
                      emit INFO [Lit ''Successfully processed '',
                        Str (JInt (int (length documents))),
                        Lit '' pages from crawled job '', str_of firecrawl_job_id,
                        Lit '' for '', Lit original_url] w))))"

subsection \<open>\<^verbatim>\<open>_poll_crawl_status_sync\<close>\<close>

definition poll_interval :: nat where
  "poll_interval = 5"

definition max_wait_time :: nat where
  "max_wait_time = 600"

text \<open>
  The numbers that Python compares and divides: a \<^verbatim>\<open>bool\<close> is an \<^verbatim>\<open>int\<close>; comparing or
  dividing anything else raises \<^verbatim>\<open>TypeError\<close>.
\<close>

datatype number = PyInt int | PyFloat rat

fun number_of :: "json \<Rightarrow> number option" where
  "number_of (JInt i) = Some (PyInt i)"
| "number_of (JFloat r) = Some (PyFloat r)"
| "number_of (JBool b) = Some (PyInt (if b then 1 else 0))"
| "number_of _ = None"

fun value_of :: "number \<Rightarrow> rat" where
  "value_of (PyInt i) = of_int i"
| "value_of (PyFloat r) = r"

text \<open>
  The true division \<^verbatim>\<open>a / b\<close> gives a float. The quotient of two \<^verbatim>\<open>int\<close>s is rounded
  once, and the division raises \<^verbatim>\<open>OverflowError\<close> when the rounded quotient is no finite
  float; an \<^verbatim>\<open>int\<close> divided by a float, or dividing one, is converted first, and the
  conversion raises \<^verbatim>\<open>OverflowError\<close> in the same case. The least magnitude that is
  rounded beyond the largest float is \<open>2 ^ 1024 - 2 ^ 970\<close>. A division of floats does not
  raise but for a divisor that is zero.
\<close>

definition beyond_float :: "rat \<Rightarrow> bool" where
  "beyond_float q = (2 ^ 1024 - 2 ^ 970 \<le> \<bar>q\<bar>)"

definition to_float :: "number \<Rightarrow> error + rat" where
  "to_float a =
     (case a of
        PyInt i \<Rightarrow> if beyond_float (of_int i) then Inl OverflowError else Inr (of_int i)
      | PyFloat r \<Rightarrow> Inr r)"

fun true_divide :: "number \<Rightarrow> number \<Rightarrow> error + rat" where
  "true_divide (PyInt a) (PyInt b) =
     (if b = 0 then Inl ZeroDivisionError
      else if beyond_float (of_int a / of_int b) then Inl OverflowError
      else Inr (of_int a / of_int b))"
| "true_divide a b =
     (case to_float a of
        Inl e \<Rightarrow> Inl e
      | Inr x \<Rightarrow>
          (case to_float b of
             Inl e \<Rightarrow> Inl e
           | Inr y \<Rightarrow> if y = 0 then Inl ZeroDivisionError else Inr (x / y)))"

text \<open>
  The progress is \<^verbatim>\<open>total and count / total * 100 if total > 0 else 0\<close>: the comparison
  comes first, and \<^verbatim>\<open>total\<close> is true when it is positive. The product of a float and
  \<^verbatim>\<open>100\<close> is a float and does not raise.
\<close>

definition progress_of :: "json \<Rightarrow> json \<Rightarrow> error + json" where
  "progress_of count_v total_v =
     (case number_of total_v of
        None \<Rightarrow> Inl TypeError
      | Some t \<Rightarrow>
          if value_of t > 0
          then (case number_of count_v of
                  None \<Rightarrow> Inl TypeError
                | Some c \<Rightarrow>
                    (case true_divide c t of
                       Inl e \<Rightarrow> Inl e
                     | Inr q \<Rightarrow> Inr (JFloat (q * 100))))
          else Inr (JInt 0))"

text \<open>The message of the timeout, which is logged and raised.\<close>

definition timeout_msg :: "json \<Rightarrow> string \<Rightarrow> fragment list" where
  "timeout_msg firecrawl_job_id original_url =
     [Lit ''Timeout waiting for FireCrawl job '', str_of firecrawl_job_id,
      Lit '' (URL: '', Lit original_url, Lit '') to complete after '',
      Str (JInt (int max_wait_time)), Lit '' seconds.'']"

text \<open>
  One pass through the body of \<^verbatim>\<open>while True\<close>: \<open>Some r\<close> when the pass leaves the loop, by
  \<^verbatim>\<open>return\<close> or by an exception, \<open>None\<close> when it reaches the end of the body.
\<close>

definition poll_iteration ::
  "env \<Rightarrow> FireCrawlLoader \<Rightarrow> json \<Rightarrow> string \<Rightarrow> string \<Rightarrow> real \<Rightarrow> world
     \<Rightarrow> (error + document list) option \<times> world" where
  "poll_iteration E L firecrawl_job_id status_url original_url start_time w =
     (let (current_time, w) = time_time E w
      in if current_time - start_time > of_nat max_wait_time
         then
           (let error_msg = timeout_msg firecrawl_job_id original_url;
                w = emit ERROR error_msg w
            in (Some (Inl (Exception error_msg)), w))
         else
           (let w = emit DEBUG [Lit ''Checking status for FireCrawl job '', str_of firecrawl_job_id,
                      Lit '' (URL: '', Lit original_url, Lit '') via '', Lit status_url] w;
                (status_data, w) = send_json E (GET status_url (get_headers L)) w
            in case status_data of
                 Inl e \<Rightarrow> (Some (Inl e), w)
               | Inr (JObj status_data) \<Rightarrow>
                   (let status = dict_get status_data ''status'' JNull;
                        w = emit INFO [Lit ''FireCrawl job '', str_of firecrawl_job_id,
                              Lit '' status: '', str_of status,
                              Lit '' (URL: '', Lit original_url, Lit '')''] w
                    in if status = JStr ''completed''
                       then
                         (let w = emit INFO [Lit ''FireCrawl job '', str_of firecrawl_job_id,
                                    Lit '' for '', Lit original_url,
                                    Lit '' completed. Collecting results.''] w;
                              (r, w) = collect_results_sync firecrawl_job_id
                                         (dict_get status_data ''data'' (JList [])) original_url w
                          in (Some r, w))
                       else if status = JStr ''failed'' \<or> status = JStr ''error''
                       then
                         (let error_message =
                                dict_get status_data ''message'' (JStr ''Unknown crawl error'');
                              w = emit ERROR [Lit ''FireCrawl job '', str_of firecrawl_job_id,
                                    Lit '' for '', Lit original_url, Lit '' failed: '',
                                    str_of error_message] w
                          in (Some (Inl (Exception [Lit ''FireCrawl job failed: '',
                                           str_of error_message])), w))
                       else
                         (let count = dict_get status_data ''completed'' (JInt 0);
                              total = dict_get status_data ''total'' (JInt 0)
                          in case progress_of count total of
                               Inl e \<Rightarrow> (Some (Inl e), w)
                             | Inr progress \<Rightarrow>
                                 (let w = emit INFO [Lit ''FireCrawl job '',
                                            str_of firecrawl_job_id, Lit '' progress: '',
                                            Str progress, Lit ''% ('', str_of count, Lit ''/'',
                                            str_of total, Lit '' pages)''] w;
                                      w = time_sleep poll_interval w
                                  in (None, w))))
               | Inr _ \<Rightarrow> (Some (Inl AttributeError), w)))"

text \<open>
  The loop itself may run forever: its value is \<open>None\<close> then, and the result with the
  state it leaves otherwise.
\<close>

partial_function (option) poll_loop ::
  "env \<Rightarrow> FireCrawlLoader \<Rightarrow> json \<Rightarrow> string \<Rightarrow> string \<Rightarrow> real \<Rightarrow> world
     \<Rightarrow> ((error + document list) \<times> world) option" where
  "poll_loop E L firecrawl_job_id status_url original_url start_time w =
     (case poll_iteration E L firecrawl_job_id status_url original_url start_time w of
        (Some r, w) \<Rightarrow> Some (r, w)
      | (None, w) \<Rightarrow> poll_loop E L firecrawl_job_id status_url original_url start_time w)"

definition poll_except :: "json \<Rightarrow> string \<Rightarrow> error \<Rightarrow> world \<Rightarrow> world" where
  "poll_except firecrawl_job_id original_url e w =
     (case e of
        HTTPError status_code \<Rightarrow>
          emit ERROR [Lit ''HTTP error polling status for FireCrawl job '',
            str_of firecrawl_job_id, Lit '' (URL: '', Lit original_url, Lit ''): '',
            Str (JInt (int status_code)), Lit '' - '', StrErr e] w
      | _ \<Rightarrow>
          emit ERROR [Lit ''Unexpected error polling status for FireCrawl job '',
            str_of firecrawl_job_id, Lit '' (URL: '', Lit original_url, Lit ''): '', StrErr e] w)"

definition poll_crawl_status_sync ::
  "env \<Rightarrow> FireCrawlLoader \<Rightarrow> json \<Rightarrow> string \<Rightarrow> string \<Rightarrow> world
     \<Rightarrow> ((error + document list) \<times> world) option" where
  "poll_crawl_status_sync E L firecrawl_job_id status_url original_url w =
     (let w = emit INFO [Lit ''Starting sync polling for FireCrawl job '', str_of firecrawl_job_id,
                Lit '' (URL: '', Lit original_url, Lit '').''] w;
          (start_time, w) = time_time E w
      in case poll_loop E L firecrawl_job_id status_url original_url start_time w of
           None \<Rightarrow> None
         | Some (Inl e, w) \<Rightarrow> Some (Inl e, poll_except firecrawl_job_id original_url e w)
         | Some (Inr documents, w) \<Rightarrow> Some (Inr documents, w))"

subsection \<open>\<^verbatim>\<open>_crawl_url\<close>\<close>

text \<open>
  The body of the \<^verbatim>\<open>try\<close> up to the call of the polling: it returns the job identifier and
  the status address that the polling gets. A status address that is true and no string
  has no \<^verbatim>\<open>startswith\<close>.
\<close>

definition crawl_submit ::
  "env \<Rightarrow> FireCrawlLoader \<Rightarrow> string \<Rightarrow> world \<Rightarrow> (error + json \<times> string) \<times> world" where
  "crawl_submit E L url w =
     (case urljoin E (api_url L) ''/v1/crawl'' of
        Inl e \<Rightarrow> (Inl e, w)
      | Inr crawl_submit_url \<Rightarrow>
          (let payload = payload_of url (crawl_options L);
               w = emit INFO [Lit ''Submitting FireCrawl crawl job for '', Lit url] w;
               w = emit DEBUG [Lit ''Crawl payload: '', Str payload] w;
               (result, w) = send_json E (POST crawl_submit_url (get_headers L) payload 30) w
           in case result of
                Inl e \<Rightarrow> (Inl e, w)
              | Inr (JObj result) \<Rightarrow>
                  (let firecrawl_job_id = dict_get result ''id'' JNull
                   in if \<not> truthy firecrawl_job_id
                      then
                        (let error_message = dict_get result ''message''
                               (JStr ''FireCrawl crawl submission did not return a job ID.'');
                             w = emit ERROR [Lit ''FireCrawl crawl submission failed for '', Lit url,
                                   Lit '': '', str_of error_message] w
                         in (Inl (Exception [Lit ''FireCrawl crawl submission failed: '',
                                    str_of error_message]), w))
                      else
                        (let status_url = dict_get result ''url'' JNull
                         in if \<not> truthy status_url
                            then
                              (let error_message = dict_get result ''message''
                                     (JStr ''FireCrawl crawl submission did not return a status URL.'');
                                   w = emit ERROR [Lit ''FireCrawl crawl submission failed for '',
                                         Lit url, Lit '': '', str_of error_message] w
                               in (Inl (Exception [Lit ''FireCrawl crawl submission failed: '',
                                          str_of error_message]), w))
                            else
                              (case status_url of
                                 JStr status_url \<Rightarrow>
                                   (let status_url =
                                          (if startswith status_url ''https://''
                                              \<and> startswith crawl_submit_url ''http://''
                                           then replace status_url ''https://'' ''http://''
                                           else status_url);
                                        w = emit INFO [Lit ''FireCrawl crawl job '',
                                              str_of firecrawl_job_id, Lit '' submitted for '',
                                              Lit url, Lit ''. Polling for completion...''] w
                                    in (Inr (firecrawl_job_id, status_url), w))
                               | _ \<Rightarrow> (Inl AttributeError, w))))
              | Inr _ \<Rightarrow> (Inl AttributeError, w)))"

definition crawl_except :: "string \<Rightarrow> error \<Rightarrow> world \<Rightarrow> world" where
  "crawl_except url e w =
     (case e of
        HTTPError status_code \<Rightarrow>
          emit ERROR [Lit ''HTTP error submitting crawl job for '', Lit url, Lit '': '',
            Str (JInt (int status_code)), Lit '' - '', StrErr e] w
      | _ \<Rightarrow> emit ERROR [Lit ''Error submitting crawl job for '', Lit url, Lit '': '', StrErr e] w)"

text \<open>
  The polling is called inside the \<^verbatim>\<open>try\<close>, so what it raises passes through the
  \<^verbatim>\<open>except\<close> clauses of \<^verbatim>\<open>_crawl_url\<close> as well.
\<close>

definition crawl_url ::
  "env \<Rightarrow> FireCrawlLoader \<Rightarrow> string \<Rightarrow> world \<Rightarrow> ((error + document list) \<times> world) option" where
  "crawl_url E L url w =
     (case crawl_submit E L url w of
        (Inl e, w) \<Rightarrow> Some (Inl e, crawl_except url e w)
      | (Inr (firecrawl_job_id, status_url), w) \<Rightarrow>
          (case poll_crawl_status_sync E L firecrawl_job_id status_url url w of
             None \<Rightarrow> None
           | Some (Inl e, w) \<Rightarrow> Some (Inl e, crawl_except url e w)
           | Some (Inr documents, w) \<Rightarrow> Some (Inr documents, w)))"

subsection \<open>\<^verbatim>\<open>lazy_load\<close> and \<^verbatim>\<open>alazy_load\<close>\<close>

text \<open>
  Both are generators, modelled by what a consumer gets who iterates to the end: the
  documents yielded, in order, and the exception that ended the iteration, if one did.
  Documents of earlier locators have been yielded when a later locator raises. The value
  is \<open>None\<close> when the iteration never ends. \<^verbatim>\<open>alazy_load\<close> awaits each call it hands to the
  executor before it goes on, so the call is modelled as the call itself.
\<close>

fun lazy_load_urls ::
  "env \<Rightarrow> FireCrawlLoader \<Rightarrow> string list \<Rightarrow> world
     \<Rightarrow> ((document list \<times> error option) \<times> world) option" where
  "lazy_load_urls E L [] w = Some (([], None), w)"
| "lazy_load_urls E L (url_item # rest) w =
     (case (if mode L = SCRAPE
            then Some (scrape_url E L url_item (emit DEBUG [Lit ''Scraping URL: '', Lit url_item] w))
            else if mode L = CRAWL
            then crawl_url E L url_item (emit DEBUG [Lit ''Crawling URL: '', Lit url_item] w)
            else Some (Inr [],
                   emit ERROR [Lit ''Unknown FireCrawl mode: '', StrMode (mode L),
                     Lit '' for URL: '', Lit url_item] w)) of
        None \<Rightarrow> None
      | Some (Inl e, w) \<Rightarrow> Some (([], Some e), w)
      | Some (Inr docs_for_url, w) \<Rightarrow>
          (case lazy_load_urls E L rest w of
             None \<Rightarrow> None
           | Some ((docs, e), w) \<Rightarrow> Some ((docs_for_url @ docs, e), w)))"

definition lazy_load ::
  "env \<Rightarrow> FireCrawlLoader \<Rightarrow> world \<Rightarrow> ((document list \<times> error option) \<times> world) option" where
  "lazy_load E L w = lazy_load_urls E L (urls L) w"

fun alazy_load_urls ::
  "env \<Rightarrow> FireCrawlLoader \<Rightarrow> string list \<Rightarrow> world
     \<Rightarrow> ((document list \<times> error option) \<times> world) option" where
  "alazy_load_urls E L [] w = Some (([], None), w)"
| "alazy_load_urls E L (url_item # rest) w =
     (case (if mode L = SCRAPE
            then Some (scrape_url E L url_item
                   (emit DEBUG [Lit ''Async scraping URL: '', Lit url_item] w))
            else if mode L = CRAWL
            then crawl_url E L url_item (emit DEBUG [Lit ''Async crawling URL: '', Lit url_item] w)
            else Some (Inr [],
                   emit ERROR [Lit ''Async loading: Unknown FireCrawl mode: '', StrMode (mode L),
                     Lit '' for URL: '', Lit url_item] w)) of
        None \<Rightarrow> None
      | Some (Inl e, w) \<Rightarrow> Some (([], Some e), w)
      | Some (Inr docs_for_url, w) \<Rightarrow>
          (case alazy_load_urls E L rest w of
             None \<Rightarrow> None
           | Some ((docs, e), w) \<Rightarrow> Some ((docs_for_url @ docs, e), w)))"

definition alazy_load ::
  "env \<Rightarrow> FireCrawlLoader \<Rightarrow> world \<Rightarrow> ((document list \<times> error option) \<times> world) option" where
  "alazy_load E L w = alazy_load_urls E L (urls L) w"

text \<open>
  A status response that leaves the job in progress: it has no error status, its body is a
  JSON object whose status is none of \<^verbatim>\<open>completed\<close>, \<^verbatim>\<open>failed\<close> and \<^verbatim>\<open>error\<close>, and the
  progress can be computed from its counts.
\<close>

definition in_progress :: "response \<Rightarrow> bool" where
  "in_progress r =
     (case r of
        Response status_code (Some (JObj status_data)) \<Rightarrow>
          \<not> (400 \<le> status_code \<and> status_code < 600)
          \<and> dict_get status_data ''status'' JNull
                \<notin> set [JStr ''completed'', JStr ''failed'', JStr ''error'']
          \<and> (case progress_of (dict_get status_data ''completed'' (JInt 0))
                       (dict_get status_data ''total'' (JInt 0)) of
                 Inl e \<Rightarrow> False
               | Inr progress \<Rightarrow> True)
      | _ \<Rightarrow> False)"

declare poll_loop.simps [code]

section \<open>Concrete runs\<close>

text \<open>
  A fresh state, an environment that answers the requests from a list (and gives no
  response once the list is used up), a response with status 200 and a JSON body, and a
  loader with the default options.
\<close>

definition fresh :: world where
  "fresh = \<lparr>sent = [], reads = 0, slept = [], logged = []\<rparr>"

definition scripted :: "response list \<Rightarrow> (nat \<Rightarrow> real) \<Rightarrow> env" where
  "scripted rs clk =
     \<lparr>service = (\<lambda>n. if n < length rs then rs ! n else NoResponse),
       clock = clk,
       check_bracketed_host = (\<lambda>host. None)\<rparr>"

definition ok :: "json \<Rightarrow> response" where
  "ok body = Response 200 (Some body)"

definition loader_of :: "string list \<Rightarrow> string \<Rightarrow> ExtractUrlMode \<Rightarrow> FireCrawlLoader" where
  "loader_of us base m =
     \<lparr>api_key = ''key'', api_url = base, urls = us, mode = m,
       scrape_options = default_scrape_options, crawl_options = default_crawl_options\<rparr>"

text \<open>
  A crawl job of three pages: the first has content, the second has none, the content of
  the third is one space. The job is submitted, is in progress at the first poll and
  completed at the second; the clock advances by six seconds from reading to reading.
\<close>

definition crawl_script :: "response list" where
  "crawl_script =
     [ok (JObj [(''id'', JStr ''job1''), (''url'', JStr ''https://localhost:3002/v1/crawl/job1'')]),
      ok (JObj [(''status'', JStr ''scraping''), (''completed'', JInt 1), (''total'', JInt 4)]),
      ok (JObj [(''status'', JStr ''completed''),
                (''data'', JList
                   [JObj [(''markdown'', JStr ''A''), (''sourceURL'', JStr ''https://example.com/a'')],
                    JObj [(''markdown'', JStr []), (''sourceURL'', JStr ''https://example.com/b'')],
                    JObj [(''markdown'', JStr '' '')]])])]"

definition crawl_env :: env where
  "crawl_env = scripted crawl_script (\<lambda>n. 6 * of_nat n)"

definition crawl_loader :: FireCrawlLoader where
  "crawl_loader = loader_of [''https://example.com''] ''http://localhost:3002'' CRAWL"

text \<open>
  The documents that one entry of a job's page data gives: the one that the loop body
  builds for it, or none. The result of the body does not depend on the state.
\<close>

definition page_documents :: "json \<Rightarrow> string \<Rightarrow> json \<Rightarrow> document list" where
  "page_documents j u item =
     (case fst (collect_item j item u fresh) of Inr (Some d) \<Rightarrow> [d] | _ \<Rightarrow> [])"

text \<open>
  Three locators to scrape: the first and the third page have content, the content of the
  second is one space. And the page data of the crawl job as a list.
\<close>

definition scrape_script :: "response list" where
  "scrape_script =
     [ok (JObj [(''success'', JBool True), (''data'', JObj [(''markdown'', JStr ''# Hi'')])]),
      ok (JObj [(''success'', JBool True), (''data'', JObj [(''markdown'', JStr '' '')])]),
      ok (JObj [(''success'', JBool True), (''data'', JObj [(''content'', JStr ''Third'')])])]"

definition scrape_env :: env where
  "scrape_env = scripted scrape_script (\<lambda>n. 0)"

definition scrape_loader :: FireCrawlLoader where
  "scrape_loader =
     loader_of [''https://a.example'', ''https://b.example'', ''https://c.example'']
       ''https://api.firecrawl.dev'' SCRAPE"

definition job_pages :: "json list" where
  "job_pages =
     [JObj [(''markdown'', JStr ''A''), (''sourceURL'', JStr ''https://example.com/a'')],
      JObj [(''markdown'', JStr []), (''sourceURL'', JStr ''https://example.com/b'')],
      JObj [(''markdown'', JStr '' '')]]"

text \<open>
  A job that stays in progress while the clock advances by 250 seconds from reading to
  reading; \<open>poll_env\<close> is the same environment seen from the first poll.
\<close>

definition slow_script :: "response list" where
  "slow_script =
     [ok (JObj [(''id'', JStr ''job1''), (''url'', JStr ''https://localhost:3002/v1/crawl/job1'')]),
      ok (JObj [(''status'', JStr ''scraping''), (''completed'', JInt 1), (''total'', JInt 4)]),
      ok (JObj [(''status'', JStr ''scraping''), (''completed'', JInt 2), (''total'', JInt 4)])]"

definition slow_env :: env where
  "slow_env = scripted slow_script (\<lambda>n. 250 * of_nat n)"

definition poll_env :: env where
  "poll_env = scripted (tl slow_script) (\<lambda>n. 250 * of_nat n)"

text \<open>
  A state without its log records, to compare states up to what was logged; and the
  result of collecting the pages of a job, which no state influences.
\<close>

definition quiet :: "world \<Rightarrow> world" where
  "quiet w = w\<lparr>logged := []\<rparr>"

definition collected :: "json \<Rightarrow> json \<Rightarrow> string \<Rightarrow> error + document list" where
  "collected j d u = fst (collect_results_sync j d u fresh)"

text \<open>
  A crawled page and a scraped page with metadata of their own, and the documents that the
  loader builds from them for the locator \<^verbatim>\<open>https://example.com\<close> and the job \<^verbatim>\<open>job1\<close>.
\<close>

definition tagged_item :: "(string \<times> json) list" where
  "tagged_item =
     [(''markdown'', JStr ''A''),
      (''metadata'', JObj [(''tags'', JList [JStr ''a'']), (''url'', JStr ''x'')])]"

definition tagged_document :: document where
  "tagged_document =
     \<lparr>page_content = ''A'',
       metadata =
         [(''source'', Val (JStr ''https://example.com'')),
          (''title'', Val (JStr [])),
          (''description'', Val (JStr [])),
          (''url'', Val (JStr ''https://example.com'')),
          (''firecrawl_mode'', Val (JStr ''crawl'')),
          (''job_id'', Val (JStr ''job1'')),
          (''original_url'', Val (JStr ''https://example.com'')),
          (''firecrawl_tags'', Val (JList [JStr ''a'']))]\<rparr>"

definition scraped_data :: "(string \<times> json) list" where
  "scraped_data =
     [(''markdown'', JStr ''A''),
      (''metadata'', JObj [(''title'', JStr ''Ex''), (''tags'', JList [JStr ''a'']), (''n'', JNull)])]"

definition scraped_document :: document where
  "scraped_document =
     \<lparr>page_content = ''A'',
       metadata =
         [(''source'', Val (JStr ''https://example.com'')),
          (''url'', Val (JStr ''https://example.com'')),
          (''firecrawl_mode'', Val (JStr ''scrape'')),
          (''content_length'', Val (JInt 1)),
          (''title'', Val (JStr ''Ex'')),
          (''description'', Val (JStr [])),
          (''firecrawl_tags'', StrOf (JList [JStr ''a'']))]\<rparr>"

lemmas url_defs =
  urljoin_def urlparse_def urlsplit_def splitnetloc_def split_first_def
  c0_control_or_space_def unsafe_url_byte_def ascii_alpha_def ascii_lower_def
  ascii_lowercase_def ascii_uppercase_def scheme_chars_def
  uses_relative_def uses_netloc_def uses_params_def resolve_segments_def

lemmas scrape_defs =
  scrape_url_def scrape_extract_def scrape_document_def scrape_metadata_def
  add_scrape_metadata_def scrape_except_def
  send_json_def emit_def payload_of_def dict_get_def dict_set_def get_headers_def
  default_scrape_options_def str_of_def py_str_def strip_def isspace_def

lemmas crawl_defs =
  crawl_url_def crawl_submit_def crawl_except_def poll_crawl_status_sync_def poll_except_def
  poll_iteration_def timeout_msg_def progress_of_def time_time_def time_sleep_def
  poll_interval_def max_wait_time_def collect_results_sync_def collect_item_def
  crawl_metadata_def add_crawl_metadata_def send_json_def emit_def payload_of_def dict_get_def dict_set_def get_headers_def
  default_crawl_options_def str_of_def startswith_def

lemmas run_defs = loader_of_def fresh_def scripted_def ok_def Let_def

lemma beyond_float_small [simp]: "\<bar>q\<bar> \<le> 1 \<Longrightarrow> \<not> beyond_float q"
  by (simp add: beyond_float_def)

lemma urljoin_local_crawl [simp]:
  "urljoin E ''http://localhost:3002'' ''/v1/crawl'' = Inr ''http://localhost:3002/v1/crawl''"
  by (simp add: url_defs Let_def)

lemma urljoin_public_scrape [simp]:
  "urljoin E ''https://api.firecrawl.dev'' ''/v1/scrape'' = Inr ''https://api.firecrawl.dev/v1/scrape''"
  by (simp add: url_defs Let_def)

section \<open>What each operation does to the state\<close>

lemma emit_fields [simp]:
  "sent (emit lv m w) = sent w" "reads (emit lv m w) = reads w"
  "slept (emit lv m w) = slept w" "logged (emit lv m w) = logged w @ [(lv, m)]"
  by (simp_all add: emit_def)

lemma scrape_except_fields [simp]:
  "sent (scrape_except u e w) = sent w" "reads (scrape_except u e w) = reads w"
  "slept (scrape_except u e w) = slept w"
  by (simp_all add: scrape_except_def split: error.splits)

lemma scrape_document_fields [simp]:
  "sent (snd (scrape_document u d c w)) = sent w"
  "reads (snd (scrape_document u d c w)) = reads w"
  "slept (snd (scrape_document u d c w)) = slept w"
  by (simp_all add: scrape_document_def split: json.splits)

lemma scrape_extract_sent:
  "sent (snd (scrape_extract E L u w)) =
     sent w @ (case urljoin E (api_url L) ''/v1/scrape'' of
                 Inl e \<Rightarrow> []
               | Inr ep \<Rightarrow> [POST ep (get_headers L) (payload_of u (scrape_options L)) 30])"
  by (simp add: scrape_extract_def Let_def send_json_def
        split: sum.splits json.splits response.splits option.splits)

lemma scrape_url_sent:
  "sent (snd (scrape_url E L u w)) =
     sent w @ (case urljoin E (api_url L) ''/v1/scrape'' of
                 Inl e \<Rightarrow> []
               | Inr ep \<Rightarrow> [POST ep (get_headers L) (payload_of u (scrape_options L)) 30])"
  using scrape_extract_sent [of E L u w]
  by (auto simp add: scrape_url_def Let_def case_prod_beta split: sum.splits)

section \<open>Scrape mode\<close>

lemma scrape_document_docs:
  "fst (scrape_document u d c w) = Inr ds \<Longrightarrow>
     length ds \<le> 1 \<and> (\<forall>x \<in> set ds. page_content x \<noteq> [])"
  by (auto simp add: scrape_document_def strip_def split: json.splits if_splits)

text \<open>The result of \<^verbatim>\<open>_scrape_url\<close> does not depend on the state in which the document is built.\<close>

lemma scrape_url_fst:
  "fst (scrape_url E L u w) =
     (case fst (scrape_extract E L u w) of
        Inl e \<Rightarrow> Inl e
      | Inr (data, content) \<Rightarrow> fst (scrape_document u data content w0))"
  by (auto simp add: scrape_url_def Let_def case_prod_beta scrape_document_def
        split: sum.splits json.splits)

lemma scrape_url_docs:
  "fst (scrape_url E L u w) = Inr ds \<Longrightarrow>
     length ds \<le> 1 \<and> (\<forall>x \<in> set ds. page_content x \<noteq> [])"
  using scrape_document_docs [of u _ _ w ds]
  by (auto simp add: scrape_url_fst [where ?w0.0 = w] split: sum.splits prod.splits)

lemma scrape_document_empty_iff:
  "fst (scrape_document u d c w) = Inr [] \<longleftrightarrow>
     (\<not> truthy c \<or> (\<exists>s. c = JStr s \<and> strip s = []))"
  by (auto simp add: scrape_document_def split: json.splits)

lemma scrape_url_empty_iff:
  "fst (scrape_url E L u w) = Inr [] \<longleftrightarrow>
     (\<exists>data content. fst (scrape_extract E L u w) = Inr (data, content)
        \<and> (\<not> truthy content \<or> (\<exists>s. content = JStr s \<and> strip s = [])))"
  by (auto simp add: scrape_url_fst [where ?w0.0 = w] scrape_document_empty_iff
        split: sum.splits prod.splits)

lemma lazy_load_urls_scrape:
  assumes "mode L = SCRAPE"
  shows "\<exists>ds e w' n. lazy_load_urls E L us w = Some ((ds, e), w')
           \<and> n \<le> length us \<and> (e = None \<longrightarrow> n = length us) \<and> length ds \<le> n
           \<and> sent w' = sent w @
                (case urljoin E (api_url L) ''/v1/scrape'' of
                   Inl x \<Rightarrow> []
                 | Inr ep \<Rightarrow> map (\<lambda>u. POST ep (get_headers L) (payload_of u (scrape_options L)) 30)
                              (take n us))"
proof (induction us arbitrary: w)
  case Nil
  show ?case by (simp split: sum.splits)
next
  case (Cons u us)
  let ?w0 = "emit DEBUG [Lit ''Scraping URL: '', Lit u] w"
  obtain r w1 where step: "scrape_url E L u ?w0 = (r, w1)" by (cases "scrape_url E L u ?w0")
  have sent1: "sent w1 = sent w @
      (case urljoin E (api_url L) ''/v1/scrape'' of
         Inl x \<Rightarrow> []
       | Inr ep \<Rightarrow> [POST ep (get_headers L) (payload_of u (scrape_options L)) 30])"
    using scrape_url_sent [of E L u ?w0] step by simp
  show ?case
  proof (cases r)
    case (Inl e)
    have "lazy_load_urls E L (u # us) w = Some (([], Some e), w1)"
      using assms step Inl by simp
    moreover have "sent w1 = sent w @
        (case urljoin E (api_url L) ''/v1/scrape'' of
           Inl x \<Rightarrow> []
         | Inr ep \<Rightarrow> map (\<lambda>u. POST ep (get_headers L) (payload_of u (scrape_options L)) 30)
                      (take 1 (u # us)))"
      using sent1 by (simp split: sum.splits)
    ultimately show ?thesis
      by (intro exI [of _ "[]"] exI [of _ "Some e"] exI [of _ w1] exI [of _ 1]) simp
  next
    case (Inr ds1)
    from Cons.IH [of w1] obtain ds e w' n where
      rest: "lazy_load_urls E L us w1 = Some ((ds, e), w')"
      and n: "n \<le> length us" "e = None \<longrightarrow> n = length us" "length ds \<le> n"
      and sent': "sent w' = sent w1 @
        (case urljoin E (api_url L) ''/v1/scrape'' of
           Inl x \<Rightarrow> []
         | Inr ep \<Rightarrow> map (\<lambda>u. POST ep (get_headers L) (payload_of u (scrape_options L)) 30)
                      (take n us))"
      by blast
    have len1: "length ds1 \<le> 1"
      using scrape_url_docs [of E L u ?w0 ds1] step Inr by simp
    have "lazy_load_urls E L (u # us) w = Some ((ds1 @ ds, e), w')"
      using assms step Inr rest by simp
    moreover have "sent w' = sent w @
        (case urljoin E (api_url L) ''/v1/scrape'' of
           Inl x \<Rightarrow> []
         | Inr ep \<Rightarrow> map (\<lambda>u. POST ep (get_headers L) (payload_of u (scrape_options L)) 30)
                      (take (Suc n) (u # us)))"
      using sent1 sent' by (simp split: sum.splits)
    moreover have "Suc n \<le> length (u # us)" "e = None \<longrightarrow> Suc n = length (u # us)"
      "length (ds1 @ ds) \<le> Suc n"
      using n len1 by simp_all
    ultimately show ?thesis
      by (intro exI [of _ "ds1 @ ds"] exI [of _ e] exI [of _ w'] exI [of _ "Suc n"]) blast
  qed
qed

text \<open>
  Claim C5, as it is stated, fails when a fetch raises: the exception ends the iteration
  and the locators after it get no submission. Here the service answers the first of two
  locators with status 500: one request is sent, and the run ends with the HTTP error.
\<close>

theorem scrape_mode_stops_at_first_error:
  "mode (loader_of [''https://a.example'', ''https://b.example''] ''https://api.firecrawl.dev'' SCRAPE)
     = SCRAPE
   \<and> length (urls (loader_of [''https://a.example'', ''https://b.example'']
                      ''https://api.firecrawl.dev'' SCRAPE)) = 2
   \<and> map_option fst
        (lazy_load (scripted [Response 500 None] (\<lambda>n. 0))
           (loader_of [''https://a.example'', ''https://b.example''] ''https://api.firecrawl.dev'' SCRAPE)
           fresh)
      = Some ([], Some (HTTPError 500))
   \<and> map_option (length \<circ> sent \<circ> snd)
        (lazy_load (scripted [Response 500 None] (\<lambda>n. 0))
           (loader_of [''https://a.example'', ''https://b.example''] ''https://api.firecrawl.dev'' SCRAPE)
           fresh)
      = Some 1"
  by (simp add: lazy_load_def run_defs scrape_defs)

text \<open>
  Claim C5, amended. In scrape mode the iteration always ends. The submissions it sends
  are one \<^verbatim>\<open>POST\<close> to the scrape endpoint for each locator of an initial segment of the
  list, in order, and for every locator when no exception ends the run; it yields at most
  one document for each locator it submitted. A fetch returns at most one document, and it
  returns none, without raising, exactly when the content it extracted is false (empty)
  or a string of nothing but whitespace.
\<close>

theorem scrape_mode_submissions_and_documents:
  assumes "mode L = SCRAPE"
  shows "(\<exists>ds e w' n. lazy_load E L w = Some ((ds, e), w')
            \<and> n \<le> length (urls L) \<and> (e = None \<longrightarrow> n = length (urls L)) \<and> length ds \<le> n
            \<and> sent w' = sent w @
                 (case urljoin E (api_url L) ''/v1/scrape'' of
                    Inl x \<Rightarrow> []
                  | Inr ep \<Rightarrow>
                      map (\<lambda>u. POST ep (get_headers L) (payload_of u (scrape_options L)) 30)
                        (take n (urls L))))
       \<and> (\<forall>u w0 ds. fst (scrape_url E L u w0) = Inr ds \<longrightarrow> length ds \<le> 1)
       \<and> (\<forall>u w0. fst (scrape_url E L u w0) = Inr [] \<longleftrightarrow>
            (\<exists>data content. fst (scrape_extract E L u w0) = Inr (data, content)
               \<and> (\<not> truthy content \<or> (\<exists>s. content = JStr s \<and> strip s = []))))"
proof (intro conjI allI impI)
  show "\<exists>ds e w' n. lazy_load E L w = Some ((ds, e), w')
            \<and> n \<le> length (urls L) \<and> (e = None \<longrightarrow> n = length (urls L)) \<and> length ds \<le> n
            \<and> sent w' = sent w @
                 (case urljoin E (api_url L) ''/v1/scrape'' of
                    Inl x \<Rightarrow> []
                  | Inr ep \<Rightarrow>
                      map (\<lambda>u. POST ep (get_headers L) (payload_of u (scrape_options L)) 30)
                        (take n (urls L)))"
    unfolding lazy_load_def using assms by (rule lazy_load_urls_scrape)
next
  fix u w0 ds
  assume "fst (scrape_url E L u w0) = Inr ds"
  then show "length ds \<le> 1" using scrape_url_docs by blast
next
  fix u w0
  show "fst (scrape_url E L u w0) = Inr [] \<longleftrightarrow>
          (\<exists>data content. fst (scrape_extract E L u w0) = Inr (data, content)
             \<and> (\<not> truthy content \<or> (\<exists>s. content = JStr s \<and> strip s = [])))"
    by (rule scrape_url_empty_iff)
qed

text \<open>
  The run of the three locators above: three submissions are sent and two documents are
  yielded, none for the page whose content is one space.
\<close>

lemma scrape_run:
  "map_option (map_prod (map_prod (map page_content) id) (length \<circ> sent))
     (lazy_load scrape_env scrape_loader fresh)
   = Some (([''# Hi'', ''Third''], None), 3)"
  by (simp add: lazy_load_def scrape_env_def scrape_loader_def scrape_script_def run_defs scrape_defs)

text \<open>The same run as an instance of the theorem.\<close>

theorem scrape_mode_three_locators_witness:
  "mode scrape_loader = SCRAPE
   \<and> length (urls scrape_loader) = 3
   \<and> map_option (map_prod (map_prod (map page_content) id) (length \<circ> sent))
        (lazy_load scrape_env scrape_loader fresh)
      = Some (([''# Hi'', ''Third''], None), 3)"
proof -
  have m: "mode scrape_loader = SCRAPE" and n: "length (urls scrape_loader) = 3"
    by (simp_all add: scrape_loader_def loader_of_def)
  from scrape_mode_submissions_and_documents [OF m, of scrape_env fresh] scrape_run m n
  show ?thesis by simp
qed

section \<open>Unknown operation mode\<close>

lemma lazy_load_urls_unknown:
  "mode L \<noteq> SCRAPE \<Longrightarrow> mode L \<noteq> CRAWL \<Longrightarrow>
   lazy_load_urls E L us w =
     Some (([], None),
       w\<lparr>logged := logged w @
          map (\<lambda>u. (ERROR, [Lit ''Unknown FireCrawl mode: '', StrMode (mode L),
                  Lit '' for URL: '', Lit u])) us\<rparr>)"
  by (induction us arbitrary: w) (simp_all add: emit_def)

lemma alazy_load_urls_unknown:
  "mode L \<noteq> SCRAPE \<Longrightarrow> mode L \<noteq> CRAWL \<Longrightarrow>
   alazy_load_urls E L us w =
     Some (([], None),
       w\<lparr>logged := logged w @
          map (\<lambda>u. (ERROR, [Lit ''Async loading: Unknown FireCrawl mode: '', StrMode (mode L),
                  Lit '' for URL: '', Lit u])) us\<rparr>)"
  by (induction us arbitrary: w) (simp_all add: emit_def)

text \<open>
  Claim C8. With a mode that is neither \<^verbatim>\<open>SCRAPE\<close> nor \<^verbatim>\<open>CRAWL\<close>, both entry points go
  through every locator, yield no document and raise nothing. The only effect is one
  error record for each locator, in order, that names the mode and the locator: no
  request is sent, the clock is not read, nothing sleeps.
\<close>

theorem unknown_mode_is_logged_and_skipped:
  assumes "mode L \<noteq> SCRAPE" and "mode L \<noteq> CRAWL"
  shows "lazy_load E L w =
           Some (([], None),
             w\<lparr>logged := logged w @
                map (\<lambda>u. (ERROR, [Lit ''Unknown FireCrawl mode: '', StrMode (mode L),
                        Lit '' for URL: '', Lit u])) (urls L)\<rparr>)
       \<and> alazy_load E L w =
           Some (([], None),
             w\<lparr>logged := logged w @
                map (\<lambda>u. (ERROR, [Lit ''Async loading: Unknown FireCrawl mode: '',
                        StrMode (mode L), Lit '' for URL: '', Lit u])) (urls L)\<rparr>)"
  using assms
  by (simp add: lazy_load_def alazy_load_def lazy_load_urls_unknown alazy_load_urls_unknown)

theorem unknown_mode_witness:
  "mode (loader_of [''https://a.example'', ''https://b.example''] ''https://api.firecrawl.dev''
           (Unknown ''map'')) \<noteq> SCRAPE
   \<and> mode (loader_of [''https://a.example'', ''https://b.example''] ''https://api.firecrawl.dev''
           (Unknown ''map'')) \<noteq> CRAWL
   \<and> lazy_load (scripted [] (\<lambda>n. 0))
       (loader_of [''https://a.example'', ''https://b.example''] ''https://api.firecrawl.dev''
          (Unknown ''map'')) fresh =
       Some (([], None),
         \<lparr>sent = [], reads = 0, slept = [],
           logged =
             [(ERROR, [Lit ''Unknown FireCrawl mode: '', StrMode (Unknown ''map''),
                 Lit '' for URL: '', Lit ''https://a.example'']),
              (ERROR, [Lit ''Unknown FireCrawl mode: '', StrMode (Unknown ''map''),
                 Lit '' for URL: '', Lit ''https://b.example''])]\<rparr>)
   \<and> alazy_load (scripted [] (\<lambda>n. 0))
       (loader_of [''https://a.example'', ''https://b.example''] ''https://api.firecrawl.dev''
          (Unknown ''map'')) fresh =
       Some (([], None),
         \<lparr>sent = [], reads = 0, slept = [],
           logged =
             [(ERROR, [Lit ''Async loading: Unknown FireCrawl mode: '', StrMode (Unknown ''map''),
                 Lit '' for URL: '', Lit ''https://a.example'']),
              (ERROR, [Lit ''Async loading: Unknown FireCrawl mode: '', StrMode (Unknown ''map''),
                 Lit '' for URL: '', Lit ''https://b.example''])]\<rparr>)"
  using unknown_mode_is_logged_and_skipped
    [of "loader_of [''https://a.example'', ''https://b.example''] ''https://api.firecrawl.dev''
           (Unknown ''map'')" "scripted [] (\<lambda>n. 0)" fresh]
  by (simp add: loader_of_def fresh_def)

section \<open>Collecting the pages of a completed job\<close>

lemma collect_item_fields [simp]:
  "sent (snd (collect_item j i u w)) = sent w"
  "reads (snd (collect_item j i u w)) = reads w"
  "slept (snd (collect_item j i u w)) = slept w"
  by (simp_all add: collect_item_def Let_def split: json.splits)

lemma collect_item_fst:
  "fst (collect_item j i u w) = fst (collect_item j i u w0)"
  by (simp add: collect_item_def Let_def split: json.splits)

lemma collect_item_doc:
  "fst (collect_item j i u w) = Inr (Some d) \<Longrightarrow> page_content d \<noteq> []"
  by (auto simp add: collect_item_def Let_def split: json.splits if_splits)

lemma collect_loop_effects:
  "sent (snd (collect_loop j items u acc w)) = sent w
   \<and> reads (snd (collect_loop j items u acc w)) = reads w
   \<and> slept (snd (collect_loop j items u acc w)) = slept w"
proof (induction items arbitrary: acc w)
  case Nil
  show ?case by simp
next
  case (Cons i items)
  obtain r w1 where step: "collect_item j i u w = (r, w1)" by (cases "collect_item j i u w")
  have w1: "sent w1 = sent w" "reads w1 = reads w" "slept w1 = slept w"
    using collect_item_fields [of j i u w] step by simp_all
  show ?case
  proof (cases r)
    case (Inl e)
    with step w1 show ?thesis by simp
  next
    case (Inr od)
    show ?thesis
    proof (cases od)
      case None
      with step Inr w1 Cons.IH [of acc w1] show ?thesis by simp
    next
      case (Some d)
      with step Inr w1 Cons.IH [of "acc @ [d]" w1] show ?thesis by simp
    qed
  qed
qed

lemma collect_loop_fields [simp]:
  "sent (snd (collect_loop j items u acc w)) = sent w"
  "reads (snd (collect_loop j items u acc w)) = reads w"
  "slept (snd (collect_loop j items u acc w)) = slept w"
  using collect_loop_effects [of j items u acc w] by simp_all

lemma collect_loop_docs:
  "collect_loop j items u acc w = (Inr ds, w') \<Longrightarrow>
     ds = acc @ concat (map (page_documents j u) items)"
proof (induction items arbitrary: acc w)
  case Nil
  then show ?case by simp
next
  case (Cons i items)
  obtain r w1 where step: "collect_item j i u w = (r, w1)" by (cases "collect_item j i u w")
  then have r: "fst (collect_item j i u fresh) = r"
    using collect_item_fst [of j i u fresh w] by simp
  show ?case
  proof (cases r)
    case (Inl e)
    with Cons.prems step show ?thesis by simp
  next
    case (Inr od)
    show ?thesis
    proof (cases od)
      case None
      with Cons.prems step Inr have "collect_loop j items u acc w1 = (Inr ds, w')" by simp
      from Cons.IH [OF this] r Inr None show ?thesis by (simp add: page_documents_def)
    next
      case (Some d)
      with Cons.prems step Inr have "collect_loop j items u (acc @ [d]) w1 = (Inr ds, w')" by simp
      from Cons.IH [OF this] r Inr Some show ?thesis by (simp add: page_documents_def)
    qed
  qed
qed

lemma collect_loop_skip:
  assumes "dict_get item ''markdown'' (dict_get item ''content'' (JStr [])) = JStr []"
  shows "collect_loop j (JObj item # items) u acc w =
           collect_loop j items u acc
             (emit WARNING [Lit ''No content found for crawled page from job '', str_of j,
                Lit '': '', str_of (dict_get item ''sourceURL'' (JStr u))] w)"
  using assms by (simp add: collect_item_def)

lemma collect_results_sync_fields [simp]:
  "sent (snd (collect_results_sync j d u w)) = sent w"
  "reads (snd (collect_results_sync j d u w)) = reads w"
  "slept (snd (collect_results_sync j d u w)) = slept w"
  by (simp_all add: collect_results_sync_def Let_def case_prod_beta split: sum.splits)

lemma collect_results_sync_docs:
  assumes "fst (collect_results_sync j (JList pages) u w) = Inr ds"
  shows "ds = concat (map (page_documents j u) pages)"
proof (cases "pages = []")
  case True
  with assms show ?thesis by (simp add: collect_results_sync_def)
next
  case False
  let ?w = "emit INFO [Lit ''Processing collected data for completed FireCrawl job '',
                str_of j, Lit '' from '', Lit u] w"
  obtain r w1 where loop: "collect_loop j pages u [] ?w = (r, w1)"
    by (cases "collect_loop j pages u [] ?w")
  with assms False have "r = Inr ds"
    by (simp add: collect_results_sync_def Let_def split: sum.splits)
  with loop collect_loop_docs [of j pages u "[]" ?w ds w1] show ?thesis by simp
qed

lemma page_documents_nonempty:
  "d \<in> set (page_documents j u item) \<Longrightarrow> page_content d \<noteq> []"
  using collect_item_doc [of j item u fresh d]
  by (auto simp add: page_documents_def split: sum.splits option.splits)

lemma iterate_items:
  "iterate v = Inr items \<Longrightarrow> (\<exists>pages. v = JList pages \<and> items = pages)
     \<or> (\<forall>i \<in> set items. \<exists>s. i = JStr s)"
  by (cases v) auto

lemma page_documents_JStr [simp]: "page_documents j u (JStr s) = []"
  by (simp add: page_documents_def collect_item_def)

lemma collect_results_sync_nonempty:
  assumes "fst (collect_results_sync j v u w) = Inr ds"
  shows "\<forall>d \<in> set ds. page_content d \<noteq> []"
proof (cases "truthy v")
  case False
  with assms show ?thesis by (simp add: collect_results_sync_def)
next
  case True
  let ?w = "emit INFO [Lit ''Processing collected data for completed FireCrawl job '',
                str_of j, Lit '' from '', Lit u] w"
  from assms True obtain items where it: "iterate v = Inr items"
    by (auto simp add: collect_results_sync_def Let_def split: sum.splits)
  obtain r w1 where loop: "collect_loop j items u [] ?w = (r, w1)"
    by (cases "collect_loop j items u [] ?w")
  with assms True it have "r = Inr ds"
    by (simp add: collect_results_sync_def Let_def split: sum.splits)
  with loop collect_loop_docs [of j items u "[]" ?w ds w1]
  have "ds = concat (map (page_documents j u) items)" by simp
  then show ?thesis using page_documents_nonempty by auto
qed

section \<open>The log is only written\<close>

text \<open>
  No operation reads the log: run from two states that differ in their log records only,
  it gives the same result and leaves states that differ in their log records only.
\<close>

lemma quiet_fields [simp]:
  "sent (quiet w) = sent w" "reads (quiet w) = reads w" "slept (quiet w) = slept w"
  "logged (quiet w) = []"
  by (simp_all add: quiet_def)

lemma quiet_eq_iff:
  "quiet w1 = quiet w2 \<longleftrightarrow> sent w1 = sent w2 \<and> reads w1 = reads w2 \<and> slept w1 = slept w2"
  by (cases w1; cases w2) (auto simp add: quiet_def)

lemma quiet_emit [simp]: "quiet (emit lv m w) = quiet w"
  by (simp add: quiet_eq_iff)

lemma quiet_quiet [simp]: "quiet (quiet w) = quiet w"
  by (simp add: quiet_eq_iff)

lemmas fst_distrib =
  sum.case_distrib [of fst] json.case_distrib [of fst] response.case_distrib [of fst]
  option.case_distrib [of fst] if_distrib [of fst]

subsection \<open>Scraping\<close>

lemma scrape_extract_fields:
  "reads (snd (scrape_extract E L u w)) = reads w"
  "slept (snd (scrape_extract E L u w)) = slept w"
  by (simp_all add: scrape_extract_def Let_def send_json_def case_prod_beta
        split: sum.splits json.splits response.splits option.splits)

lemma scrape_extract_quiet_fst:
  "fst (scrape_extract E L u (quiet w)) = fst (scrape_extract E L u w)"
  by (simp add: scrape_extract_def Let_def send_json_def case_prod_beta fst_distrib
        cong: sum.case_cong json.case_cong response.case_cong option.case_cong if_cong)

lemma scrape_extract_quiet:
  assumes "quiet w1 = quiet w2"
  shows "fst (scrape_extract E L u w1) = fst (scrape_extract E L u w2)"
    and "quiet (snd (scrape_extract E L u w1)) = quiet (snd (scrape_extract E L u w2))"
proof -
  show "fst (scrape_extract E L u w1) = fst (scrape_extract E L u w2)"
    using scrape_extract_quiet_fst [of E L u w1] scrape_extract_quiet_fst [of E L u w2] assms
    by simp
  show "quiet (snd (scrape_extract E L u w1)) = quiet (snd (scrape_extract E L u w2))"
    using assms by (simp add: quiet_eq_iff scrape_extract_fields scrape_extract_sent)
qed

lemma scrape_document_quiet:
  "quiet w1 = quiet w2 \<Longrightarrow> fst (scrape_document u d c w1) = fst (scrape_document u d c w2)"
  "quiet w1 = quiet w2 \<Longrightarrow>
     quiet (snd (scrape_document u d c w1)) = quiet (snd (scrape_document u d c w2))"
  by (simp_all add: scrape_document_def split: json.splits)

lemma scrape_except_quiet [simp]: "quiet (scrape_except u e w) = quiet w"
  by (simp add: scrape_except_def split: error.splits)

lemma scrape_url_quiet:
  assumes "quiet w1 = quiet w2"
  shows "fst (scrape_url E L u w1) = fst (scrape_url E L u w2)"
    and "quiet (snd (scrape_url E L u w1)) = quiet (snd (scrape_url E L u w2))"
proof -
  obtain r v1 where x1: "scrape_extract E L u w1 = (r, v1)" by (cases "scrape_extract E L u w1")
  obtain r2 v2 where x2': "scrape_extract E L u w2 = (r2, v2)" by (cases "scrape_extract E L u w2")
  have "r2 = r" and v: "quiet v1 = quiet v2"
    using scrape_extract_quiet [OF assms, of E L u] x1 x2' by simp_all
  with x2' have x2: "scrape_extract E L u w2 = (r, v2)" by simp
  have "fst (scrape_url E L u w1) = fst (scrape_url E L u w2)
      \<and> quiet (snd (scrape_url E L u w1)) = quiet (snd (scrape_url E L u w2))"
  proof (cases r)
    case (Inl e)
    with x1 x2 v show ?thesis by (simp add: scrape_url_def)
  next
    case (Inr dc)
    obtain d c where dc: "dc = (d, c)" by (cases dc)
    from scrape_document_quiet [OF v, of u d c] Inr dc x1 x2 show ?thesis
      by (simp add: scrape_url_def case_prod_beta split: sum.splits)
  qed
  then show "fst (scrape_url E L u w1) = fst (scrape_url E L u w2)"
    and "quiet (snd (scrape_url E L u w1)) = quiet (snd (scrape_url E L u w2))"
    by simp_all
qed

subsection \<open>Collecting and polling\<close>

lemma collect_loop_quiet:
  "fst (collect_loop j items u acc w1) = fst (collect_loop j items u acc w2)"
proof (induction items arbitrary: acc w1 w2)
  case Nil
  show ?case by simp
next
  case (Cons i items)
  obtain r1 v1 where s1: "collect_item j i u w1 = (r1, v1)" by (cases "collect_item j i u w1")
  obtain r2 v2 where s2: "collect_item j i u w2 = (r2, v2)" by (cases "collect_item j i u w2")
  have "r1 = r2" using collect_item_fst [of j i u w1 w2] s1 s2 by simp
  then show ?case
    using s1 s2 Cons.IH by (simp split: sum.splits option.splits)
qed

lemma collect_results_sync_any:
  "fst (collect_results_sync j d u w1) = fst (collect_results_sync j d u w2)"
proof (cases "truthy d")
  case False
  then show ?thesis by (simp add: collect_results_sync_def)
next
  case True
  show ?thesis
  proof (cases "iterate d")
    case (Inl e)
    with True show ?thesis by (simp add: collect_results_sync_def)
  next
    case (Inr items)
    let ?m = "[Lit ''Processing collected data for completed FireCrawl job '',
                str_of j, Lit '' from '', Lit u]"
    obtain r1 v1 where l1: "collect_loop j items u [] (emit INFO ?m w1) = (r1, v1)"
      by (cases "collect_loop j items u [] (emit INFO ?m w1)")
    obtain r2 v2 where l2: "collect_loop j items u [] (emit INFO ?m w2) = (r2, v2)"
      by (cases "collect_loop j items u [] (emit INFO ?m w2)")
    have "r1 = r2"
      using collect_loop_quiet [of j items u "[]" "emit INFO ?m w1" "emit INFO ?m w2"] l1 l2
      by simp
    with True Inr l1 l2 show ?thesis
      by (simp add: collect_results_sync_def split: sum.splits)
  qed
qed

lemma collect_results_sync_collected:
  "fst (collect_results_sync j d u w) = collected j d u"
  unfolding collected_def by (rule collect_results_sync_any)

lemma poll_iteration_effects:
  "sent (snd (poll_iteration E L j su u st w)) =
     sent w @ (if clock E (reads w) - st > 600 then [] else [GET su (get_headers L)])"
  "reads (snd (poll_iteration E L j su u st w)) = Suc (reads w)"
  "slept (snd (poll_iteration E L j su u st w)) =
     slept w @ (if fst (poll_iteration E L j su u st w) = None then [5] else [])"
  by (simp_all add: poll_iteration_def Let_def case_prod_beta time_time_def send_json_def
        time_sleep_def max_wait_time_def poll_interval_def
        split: sum.splits json.splits response.splits option.splits)

lemma poll_iteration_quiet_fst:
  "fst (poll_iteration E L j su u st (quiet w)) = fst (poll_iteration E L j su u st w)"
  by (simp add: poll_iteration_def Let_def case_prod_beta time_time_def send_json_def
        collect_results_sync_collected fst_distrib
        cong: sum.case_cong json.case_cong response.case_cong option.case_cong if_cong)

lemma poll_iteration_quiet:
  assumes "quiet w1 = quiet w2"
  shows "fst (poll_iteration E L j su u st w1) = fst (poll_iteration E L j su u st w2)"
  using poll_iteration_quiet_fst [of E L j su u st w1]
    poll_iteration_quiet_fst [of E L j su u st w2] assms
  by simp

lemma poll_iteration_fields:
  assumes "quiet w1 = quiet w2"
  shows "quiet (snd (poll_iteration E L j su u st w1))
       = quiet (snd (poll_iteration E L j su u st w2))"
  using assms poll_iteration_quiet [OF assms, of E L j su u st]
  by (simp add: quiet_eq_iff poll_iteration_effects)

lemma poll_loop_quiet_some:
  assumes "poll_loop E L j su u st w = Some rw"
  shows "\<forall>w2. quiet w2 = quiet w \<longrightarrow>
           (\<exists>w2'. poll_loop E L j su u st w2 = Some (fst rw, w2') \<and> quiet w2' = quiet (snd rw))"
proof (rule poll_loop.raw_induct
    [where P = "\<lambda>E L j su u st w rw. \<forall>w2. quiet w2 = quiet w \<longrightarrow>
           (\<exists>w2'. poll_loop E L j su u st w2 = Some (fst rw, w2') \<and> quiet w2' = quiet (snd rw))",
     OF _ assms])
  fix f E L j su u st w rw
  assume IH: "\<And>E L j su u st w rw. f E L j su u st w = Some rw \<Longrightarrow>
                \<forall>w2. quiet w2 = quiet w \<longrightarrow>
                  (\<exists>w2'. poll_loop E L j su u st w2 = Some (fst rw, w2')
                     \<and> quiet w2' = quiet (snd rw))"
    and eq: "(case poll_iteration E L j su u st w of
                (None, w) \<Rightarrow> f E L j su u st w
              | (Some r, w) \<Rightarrow> Some (r, w)) = Some rw"
  show "\<forall>w2. quiet w2 = quiet w \<longrightarrow>
          (\<exists>w2'. poll_loop E L j su u st w2 = Some (fst rw, w2') \<and> quiet w2' = quiet (snd rw))"
  proof (intro allI impI)
    fix w2 assume q: "quiet w2 = quiet w"
    obtain o1 v1 where it1: "poll_iteration E L j su u st w = (o1, v1)"
      by (cases "poll_iteration E L j su u st w")
    obtain o2 v2 where it2: "poll_iteration E L j su u st w2 = (o2, v2)"
      by (cases "poll_iteration E L j su u st w2")
    have o: "o2 = o1" using poll_iteration_quiet [OF q, of E L j su u st] it1 it2 by simp
    have v: "quiet v2 = quiet v1" using poll_iteration_fields [OF q, of E L j su u st] it1 it2 by simp
    show "\<exists>w2'. poll_loop E L j su u st w2 = Some (fst rw, w2') \<and> quiet w2' = quiet (snd rw)"
    proof (cases o1)
      case None
      with eq it1 have "f E L j su u st v1 = Some rw" by simp
      from IH [OF this] v obtain w2' where
        "poll_loop E L j su u st v2 = Some (fst rw, w2')" "quiet w2' = quiet (snd rw)" by blast
      with it2 o None show ?thesis by (subst poll_loop.simps) simp
    next
      case (Some r)
      with eq it1 have "rw = (r, v1)" by simp
      with it2 o Some v show ?thesis by (subst poll_loop.simps) simp
    qed
  qed
qed

lemma poll_loop_quiet:
  assumes "quiet w1 = quiet w2"
  shows "map_option (map_prod id quiet) (poll_loop E L j su u st w1)
       = map_option (map_prod id quiet) (poll_loop E L j su u st w2)"
proof (cases "poll_loop E L j su u st w1")
  case None
  show ?thesis
  proof (cases "poll_loop E L j su u st w2")
    case None
    with \<open>poll_loop E L j su u st w1 = None\<close> show ?thesis by simp
  next
    case (Some rw)
    from poll_loop_quiet_some [OF Some] assms obtain w' where
      "poll_loop E L j su u st w1 = Some (fst rw, w')" by blast
    with None show ?thesis by simp
  qed
next
  case (Some rw)
  from poll_loop_quiet_some [OF Some] assms obtain w' where
    "poll_loop E L j su u st w2 = Some (fst rw, w')" "quiet w' = quiet (snd rw)" by metis
  with Some show ?thesis by (cases rw) simp
qed

lemma poll_except_quiet [simp]: "quiet (poll_except j u e w) = quiet w"
  by (simp add: poll_except_def split: error.splits)

lemma crawl_except_quiet [simp]: "quiet (crawl_except u e w) = quiet w"
  by (simp add: crawl_except_def split: error.splits)

lemma reraise_quiet:
  assumes "map_option (map_prod id quiet) x1 = map_option (map_prod id quiet) x2"
    and "\<And>e w. quiet (h e w) = quiet w"
  shows "map_option (map_prod id quiet)
           (case x1 of None \<Rightarrow> None
            | Some (Inl e, w) \<Rightarrow> Some (Inl e, h e w)
            | Some (Inr d, w) \<Rightarrow> Some (Inr d, w))
       = map_option (map_prod id quiet)
           (case x2 of None \<Rightarrow> None
            | Some (Inl e, w) \<Rightarrow> Some (Inl e, h e w)
            | Some (Inr d, w) \<Rightarrow> Some (Inr d, w))"
proof (cases x1)
  case None
  with assms(1) have "x2 = None" by simp
  with None show ?thesis by simp
next
  case (Some rw1)
  with assms(1) obtain rw2 where x2: "x2 = Some rw2" by (cases x2) auto
  obtain r1 v1 where rw1: "rw1 = (r1, v1)" by (cases rw1)
  obtain r2 v2 where rw2: "rw2 = (r2, v2)" by (cases rw2)
  from assms(1) Some x2 rw1 rw2 have "r1 = r2" "quiet v1 = quiet v2" by simp_all
  with Some x2 rw1 rw2 assms(2) show ?thesis by (cases r2) simp_all
qed

lemma poll_crawl_status_sync_quiet:
  assumes "quiet w1 = quiet w2"
  shows "map_option (map_prod id quiet) (poll_crawl_status_sync E L j su u w1)
       = map_option (map_prod id quiet) (poll_crawl_status_sync E L j su u w2)"
proof -
  let ?m = "[Lit ''Starting sync polling for FireCrawl job '', str_of j,
                Lit '' (URL: '', Lit u, Lit '').'']"
  let ?v1 = "(emit INFO ?m w1)\<lparr>reads := Suc (reads w1)\<rparr>"
  let ?v2 = "(emit INFO ?m w2)\<lparr>reads := Suc (reads w2)\<rparr>"
  have st: "clock E (reads w1) = clock E (reads w2)" and q: "quiet ?v1 = quiet ?v2"
    using assms by (simp_all add: quiet_eq_iff)
  have "map_option (map_prod id quiet) (poll_loop E L j su u (clock E (reads w2)) ?v1)
      = map_option (map_prod id quiet) (poll_loop E L j su u (clock E (reads w2)) ?v2)"
    using q by (rule poll_loop_quiet)
  then have "map_option (map_prod id quiet)
           (case poll_loop E L j su u (clock E (reads w2)) ?v1 of None \<Rightarrow> None
            | Some (Inl e, w) \<Rightarrow> Some (Inl e, poll_except j u e w)
            | Some (Inr d, w) \<Rightarrow> Some (Inr d, w))
       = map_option (map_prod id quiet)
           (case poll_loop E L j su u (clock E (reads w2)) ?v2 of None \<Rightarrow> None
            | Some (Inl e, w) \<Rightarrow> Some (Inl e, poll_except j u e w)
            | Some (Inr d, w) \<Rightarrow> Some (Inr d, w))"
    by (rule reraise_quiet) simp
  then show ?thesis
    using st by (simp add: poll_crawl_status_sync_def Let_def time_time_def)
qed

subsection \<open>Crawling\<close>

lemma crawl_submit_fields:
  "sent (snd (crawl_submit E L u w)) =
     sent w @ (case urljoin E (api_url L) ''/v1/crawl'' of
                 Inl e \<Rightarrow> []
               | Inr ep \<Rightarrow> [POST ep (get_headers L) (payload_of u (crawl_options L)) 30])"
  "reads (snd (crawl_submit E L u w)) = reads w"
  "slept (snd (crawl_submit E L u w)) = slept w"
  by (simp_all add: crawl_submit_def Let_def send_json_def case_prod_beta
        split: sum.splits json.splits response.splits option.splits)

lemma crawl_submit_quiet_fst:
  "fst (crawl_submit E L u (quiet w)) = fst (crawl_submit E L u w)"
  by (simp add: crawl_submit_def Let_def send_json_def case_prod_beta fst_distrib
        cong: sum.case_cong json.case_cong response.case_cong option.case_cong if_cong)

lemma crawl_submit_quiet:
  assumes "quiet w1 = quiet w2"
  shows "fst (crawl_submit E L u w1) = fst (crawl_submit E L u w2)"
    and "quiet (snd (crawl_submit E L u w1)) = quiet (snd (crawl_submit E L u w2))"
proof -
  show "fst (crawl_submit E L u w1) = fst (crawl_submit E L u w2)"
    using crawl_submit_quiet_fst [of E L u w1] crawl_submit_quiet_fst [of E L u w2] assms
    by simp
  show "quiet (snd (crawl_submit E L u w1)) = quiet (snd (crawl_submit E L u w2))"
    using assms by (simp add: quiet_eq_iff crawl_submit_fields)
qed

lemma crawl_url_quiet:
  assumes "quiet w1 = quiet w2"
  shows "map_option (map_prod id quiet) (crawl_url E L u w1)
       = map_option (map_prod id quiet) (crawl_url E L u w2)"
proof -
  obtain r v1 where s1: "crawl_submit E L u w1 = (r, v1)" by (cases "crawl_submit E L u w1")
  obtain r2 v2 where s2': "crawl_submit E L u w2 = (r2, v2)" by (cases "crawl_submit E L u w2")
  have "r2 = r" and v: "quiet v1 = quiet v2"
    using crawl_submit_quiet [OF assms, of E L u] s1 s2' by simp_all
  with s2' have s2: "crawl_submit E L u w2 = (r, v2)" by simp
  show ?thesis
  proof (cases r)
    case (Inl e)
    with v s1 s2 show ?thesis by (simp add: crawl_url_def)
  next
    case (Inr js)
    obtain j su where js: "js = (j, su)" by (cases js)
    have "map_option (map_prod id quiet) (poll_crawl_status_sync E L j su u v1)
        = map_option (map_prod id quiet) (poll_crawl_status_sync E L j su u v2)"
      using v by (rule poll_crawl_status_sync_quiet)
    then have "map_option (map_prod id quiet)
           (case poll_crawl_status_sync E L j su u v1 of None \<Rightarrow> None
            | Some (Inl e, w) \<Rightarrow> Some (Inl e, crawl_except u e w)
            | Some (Inr d, w) \<Rightarrow> Some (Inr d, w))
       = map_option (map_prod id quiet)
           (case poll_crawl_status_sync E L j su u v2 of None \<Rightarrow> None
            | Some (Inl e, w) \<Rightarrow> Some (Inl e, crawl_except u e w)
            | Some (Inr d, w) \<Rightarrow> Some (Inr d, w))"
      by (rule reraise_quiet) simp
    with Inr js s1 s2 show ?thesis by (simp add: crawl_url_def)
  qed
qed

section \<open>The asynchronous entry point\<close>

lemma alazy_load_urls_quiet:
  assumes "quiet w1 = quiet w2"
  shows "map_option (map_prod id quiet) (alazy_load_urls E L us w1)
       = map_option (map_prod id quiet) (lazy_load_urls E L us w2)"
  using assms
proof (induction us arbitrary: w1 w2)
  case Nil
  then show ?case by simp
next
  case (Cons u us)
  let ?a = "if mode L = SCRAPE
            then Some (scrape_url E L u (emit DEBUG [Lit ''Async scraping URL: '', Lit u] w1))
            else if mode L = CRAWL
            then crawl_url E L u (emit DEBUG [Lit ''Async crawling URL: '', Lit u] w1)
            else Some (Inr [],
                   emit ERROR [Lit ''Async loading: Unknown FireCrawl mode: '', StrMode (mode L),
                     Lit '' for URL: '', Lit u] w1)"
  let ?s = "if mode L = SCRAPE
            then Some (scrape_url E L u (emit DEBUG [Lit ''Scraping URL: '', Lit u] w2))
            else if mode L = CRAWL
            then crawl_url E L u (emit DEBUG [Lit ''Crawling URL: '', Lit u] w2)
            else Some (Inr [],
                   emit ERROR [Lit ''Unknown FireCrawl mode: '', StrMode (mode L),
                     Lit '' for URL: '', Lit u] w2)"
  have fetch: "map_option (map_prod id quiet) ?a = map_option (map_prod id quiet) ?s"
  proof (cases "mode L = SCRAPE")
    case True
    have "quiet (emit DEBUG [Lit ''Async scraping URL: '', Lit u] w1)
        = quiet (emit DEBUG [Lit ''Scraping URL: '', Lit u] w2)"
      using Cons.prems by simp
    from scrape_url_quiet [OF this, of E L u] True show ?thesis
      by (simp add: prod_eq_iff)
  next
    case False
    show ?thesis
    proof (cases "mode L = CRAWL")
      case True
      have "quiet (emit DEBUG [Lit ''Async crawling URL: '', Lit u] w1)
          = quiet (emit DEBUG [Lit ''Crawling URL: '', Lit u] w2)"
        using Cons.prems by simp
      from crawl_url_quiet [OF this, of E L u] True False show ?thesis by simp
    next
      case False
      with \<open>mode L \<noteq> SCRAPE\<close> Cons.prems show ?thesis by simp
    qed
  qed
  show ?case
  proof (cases ?a)
    case None
    with fetch have "?s = None" by simp
    with None show ?thesis by simp
  next
    case (Some rw1)
    with fetch obtain rw2 where s: "?s = Some rw2" by (cases ?s) auto
    obtain r1 v1 where rw1: "rw1 = (r1, v1)" by (cases rw1)
    obtain r2 v2 where rw2: "rw2 = (r2, v2)" by (cases rw2)
    from fetch Some s rw1 rw2 have r: "r2 = r1" and v: "quiet v1 = quiet v2" by simp_all
    show ?thesis
    proof (cases r1)
      case (Inl e)
      with Some s rw1 rw2 r v show ?thesis by simp
    next
      case (Inr ds)
      from Cons.IH [OF v] Some s rw1 rw2 r Inr show ?thesis
        by (cases "alazy_load_urls E L us v1"; cases "lazy_load_urls E L us v2")
           (auto split: prod.splits)
    qed
  qed
qed

text \<open>
  Claim C6. For every loader, environment and starting state, the asynchronous entry
  point ends exactly when the blocking one does, and then yields the same documents (same
  content, same metadata, same order) and ends with the same exception, if any; it sends
  the same requests, reads the clock as often and sleeps as long. Only the texts of the
  log records differ. The hand-over of each fetch to an executor is modelled as the call
  it awaits.
\<close>

theorem async_load_yields_the_same:
  "map_option fst (alazy_load E L w) = map_option fst (lazy_load E L w)
   \<and> map_option (sent \<circ> snd) (alazy_load E L w) = map_option (sent \<circ> snd) (lazy_load E L w)
   \<and> map_option (reads \<circ> snd) (alazy_load E L w) = map_option (reads \<circ> snd) (lazy_load E L w)
   \<and> map_option (slept \<circ> snd) (alazy_load E L w) = map_option (slept \<circ> snd) (lazy_load E L w)"
proof -
  have eq: "map_option (map_prod id quiet) (alazy_load E L w)
      = map_option (map_prod id quiet) (lazy_load E L w)"
    unfolding alazy_load_def lazy_load_def by (rule alazy_load_urls_quiet) simp
  show ?thesis
  proof (cases "alazy_load E L w")
    case None
    with eq show ?thesis by simp
  next
    case (Some a)
    with eq obtain b where b: "lazy_load E L w = Some b" by (cases "lazy_load E L w") auto
    with eq Some have "fst a = fst b" "quiet (snd a) = quiet (snd b)"
      by (simp_all add: map_prod_def split_beta)
    with Some b show ?thesis by (simp add: quiet_eq_iff)
  qed
qed

section \<open>Every document has content\<close>

lemma poll_iteration_docs:
  assumes "fst (poll_iteration E L j su u st w) = Some (Inr ds)"
  shows "\<forall>d \<in> set ds. page_content d \<noteq> []"
proof -
  from assms obtain v w1 where "fst (collect_results_sync j v u w1) = Inr ds"
    by (auto simp add: poll_iteration_def Let_def case_prod_beta
          split: if_splits sum.splits json.splits)
  then show ?thesis by (rule collect_results_sync_nonempty)
qed

lemma poll_loop_docs:
  assumes "poll_loop E L j su u st w = Some (Inr ds, w')"
  shows "\<forall>d \<in> set ds. page_content d \<noteq> []"
proof -
  have "\<forall>xs. fst (Inr ds :: error + document list, w') = Inr xs \<longrightarrow> (\<forall>d \<in> set xs. page_content d \<noteq> [])"
  proof (rule poll_loop.raw_induct
      [where P = "\<lambda>E L j su u st w res.
         \<forall>xs. fst res = Inr xs \<longrightarrow> (\<forall>d \<in> set xs. page_content d \<noteq> [])", OF _ assms])
    fix f E L j su u st w res
    assume IH: "\<And>E L j su u st w res. f E L j su u st w = Some res \<Longrightarrow>
                  \<forall>xs. fst res = Inr xs \<longrightarrow> (\<forall>d \<in> set xs. page_content d \<noteq> [])"
      and eq: "(case poll_iteration E L j su u st w of
                  (None, w) \<Rightarrow> f E L j su u st w
                | (Some r, w) \<Rightarrow> Some (r, w)) = Some res"
    obtain o1 w1 where it: "poll_iteration E L j su u st w = (o1, w1)"
      by (cases "poll_iteration E L j su u st w")
    show "\<forall>xs. fst res = Inr xs \<longrightarrow> (\<forall>d \<in> set xs. page_content d \<noteq> [])"
    proof (cases o1)
      case None
      with eq it have "f E L j su u st w1 = Some res" by simp
      then show ?thesis by (rule IH)
    next
      case (Some r)
      with eq it have "res = (r, w1)" by simp
      with it Some poll_iteration_docs [of E L j su u st w] show ?thesis by auto
    qed
  qed
  then show ?thesis by simp
qed

lemma poll_crawl_status_sync_docs:
  assumes "poll_crawl_status_sync E L j su u w = Some (Inr ds, w')"
  shows "\<forall>d \<in> set ds. page_content d \<noteq> []"
proof -
  from assms obtain st w0 w1 where "poll_loop E L j su u st w0 = Some (Inr ds, w1)"
    by (auto simp add: poll_crawl_status_sync_def Let_def case_prod_beta
          split: option.splits sum.splits prod.splits)
  then show ?thesis by (rule poll_loop_docs)
qed

lemma crawl_url_docs:
  assumes "crawl_url E L u w = Some (Inr ds, w')"
  shows "\<forall>d \<in> set ds. page_content d \<noteq> []"
proof -
  from assms obtain j su w0 w1 where "poll_crawl_status_sync E L j su u w0 = Some (Inr ds, w1)"
    by (auto simp add: crawl_url_def split: option.splits sum.splits prod.splits)
  then show ?thesis by (rule poll_crawl_status_sync_docs)
qed

lemma fetch_docs:
  assumes "(if mode L = SCRAPE then Some (scrape_url E L u w1)
            else if mode L = CRAWL then crawl_url E L u w2
            else Some (Inr [], w3)) = Some (Inr ds, w')"
  shows "\<forall>d \<in> set ds. page_content d \<noteq> []"
proof (cases "mode L = SCRAPE")
  case True
  with assms have "fst (scrape_url E L u w1) = Inr ds" by simp
  then show ?thesis using scrape_url_docs by blast
next
  case False
  show ?thesis
  proof (cases "mode L = CRAWL")
    case True
    with False assms have "crawl_url E L u w2 = Some (Inr ds, w')" by simp
    then show ?thesis by (rule crawl_url_docs)
  next
    case False
    with \<open>mode L \<noteq> SCRAPE\<close> assms show ?thesis by simp
  qed
qed

lemma lazy_load_urls_docs:
  "lazy_load_urls E L us w = Some ((ds, e), w') \<Longrightarrow> \<forall>d \<in> set ds. page_content d \<noteq> []"
proof (induction us arbitrary: w ds e w')
  case Nil
  then show ?case by simp
next
  case (Cons u us)
  let ?fetch = "if mode L = SCRAPE
            then Some (scrape_url E L u (emit DEBUG [Lit ''Scraping URL: '', Lit u] w))
            else if mode L = CRAWL
            then crawl_url E L u (emit DEBUG [Lit ''Crawling URL: '', Lit u] w)
            else Some (Inr [],
                   emit ERROR [Lit ''Unknown FireCrawl mode: '', StrMode (mode L),
                     Lit '' for URL: '', Lit u] w)"
  from Cons.prems obtain r w1 where fetch: "?fetch = Some (r, w1)"
    by (cases ?fetch) auto
  show ?case
  proof (cases r)
    case (Inl x)
    with Cons.prems fetch show ?thesis by simp
  next
    case (Inr ds1)
    with Cons.prems fetch obtain ds2 where
      rest: "lazy_load_urls E L us w1 = Some ((ds2, e), w')" and ds: "ds = ds1 @ ds2"
      by (auto split: option.splits)
    from fetch Inr have "\<forall>d \<in> set ds1. page_content d \<noteq> []" using fetch_docs by blast
    with Cons.IH [OF rest] ds show ?thesis by auto
  qed
qed

lemma alazy_load_urls_docs:
  "alazy_load_urls E L us w = Some ((ds, e), w') \<Longrightarrow> \<forall>d \<in> set ds. page_content d \<noteq> []"
proof (induction us arbitrary: w ds e w')
  case Nil
  then show ?case by simp
next
  case (Cons u us)
  let ?fetch = "if mode L = SCRAPE
            then Some (scrape_url E L u (emit DEBUG [Lit ''Async scraping URL: '', Lit u] w))
            else if mode L = CRAWL
            then crawl_url E L u (emit DEBUG [Lit ''Async crawling URL: '', Lit u] w)
            else Some (Inr [],
                   emit ERROR [Lit ''Async loading: Unknown FireCrawl mode: '', StrMode (mode L),
                     Lit '' for URL: '', Lit u] w)"
  from Cons.prems obtain r w1 where fetch: "?fetch = Some (r, w1)"
    by (cases ?fetch) auto
  show ?case
  proof (cases r)
    case (Inl x)
    with Cons.prems fetch show ?thesis by simp
  next
    case (Inr ds1)
    with Cons.prems fetch obtain ds2 where
      rest: "alazy_load_urls E L us w1 = Some ((ds2, e), w')" and ds: "ds = ds1 @ ds2"
      by (auto split: option.splits)
    from fetch Inr have "\<forall>d \<in> set ds1. page_content d \<noteq> []" using fetch_docs by blast
    with Cons.IH [OF rest] ds show ?thesis by auto
  qed
qed

text \<open>The run of the crawl job above, through both entry points.\<close>

lemma crawl_run:
  "map_option (map page_content \<circ> fst \<circ> fst) (lazy_load crawl_env crawl_loader fresh)
     = Some [''A'', '' '']"
  by (simp add: lazy_load_def crawl_env_def crawl_loader_def run_defs crawl_defs crawl_script_def
        poll_loop.simps)

lemma crawl_run_async:
  "map_option (map page_content \<circ> fst \<circ> fst) (alazy_load crawl_env crawl_loader fresh)
     = Some [''A'', '' '']"
proof -
  have "map_option (map_prod id quiet) (alazy_load crawl_env crawl_loader fresh)
      = map_option (map_prod id quiet) (lazy_load crawl_env crawl_loader fresh)"
    unfolding alazy_load_def lazy_load_def by (rule alazy_load_urls_quiet) simp
  then have "map_option (map page_content \<circ> fst \<circ> fst)
               (map_option (map_prod id quiet) (alazy_load crawl_env crawl_loader fresh))
           = map_option (map page_content \<circ> fst \<circ> fst)
               (map_option (map_prod id quiet) (lazy_load crawl_env crawl_loader fresh))"
    by simp
  then show ?thesis
    using crawl_run by (simp add: option.map_comp comp_def)
qed

text \<open>
  Claim C2. Every document that either entry point yields, in any mode, has a page
  content that is not the empty string. A scraped page whose extracted content is the
  empty string gives the empty list of documents, which is a result and no exception; a
  crawled page whose content is the empty string is passed over with a warning, and the
  loop goes on with the remaining pages and the documents collected so far.
\<close>

theorem emitted_documents_have_content:
  "(lazy_load E L w = Some ((ds, e), w') \<longrightarrow> (\<forall>d \<in> set ds. page_content d \<noteq> []))
   \<and> (alazy_load E L w = Some ((ds, e), w') \<longrightarrow> (\<forall>d \<in> set ds. page_content d \<noteq> []))
   \<and> (fst (scrape_extract E L u w) = Inr (data, JStr []) \<longrightarrow> fst (scrape_url E L u w) = Inr [])
   \<and> (dict_get item ''markdown'' (dict_get item ''content'' (JStr [])) = JStr [] \<longrightarrow>
        collect_loop j (JObj item # items) u acc w =
          collect_loop j items u acc
            (emit WARNING [Lit ''No content found for crawled page from job '', str_of j,
               Lit '': '', str_of (dict_get item ''sourceURL'' (JStr u))] w))"
proof (intro conjI impI)
  assume "lazy_load E L w = Some ((ds, e), w')"
  then show "\<forall>d \<in> set ds. page_content d \<noteq> []"
    unfolding lazy_load_def by (rule lazy_load_urls_docs)
next
  assume "alazy_load E L w = Some ((ds, e), w')"
  then show "\<forall>d \<in> set ds. page_content d \<noteq> []"
    unfolding alazy_load_def by (rule alazy_load_urls_docs)
next
  assume "fst (scrape_extract E L u w) = Inr (data, JStr [])"
  then show "fst (scrape_url E L u w) = Inr []"
    by (simp add: scrape_url_fst [where ?w0.0 = w] scrape_document_def)
next
  assume "dict_get item ''markdown'' (dict_get item ''content'' (JStr [])) = JStr []"
  then show "collect_loop j (JObj item # items) u acc w =
          collect_loop j items u acc
            (emit WARNING [Lit ''No content found for crawled page from job '', str_of j,
               Lit '': '', str_of (dict_get item ''sourceURL'' (JStr u))] w)"
    by (rule collect_loop_skip)
qed

text \<open>
  The crawl job of three pages yields the first and the third page, through both entry
  points, and the second page is one that the loop passes over.
\<close>

theorem emitted_documents_witness:
  "map_option (map page_content \<circ> fst \<circ> fst) (lazy_load crawl_env crawl_loader fresh)
     = Some [''A'', '' '']
   \<and> map_option (map page_content \<circ> fst \<circ> fst) (alazy_load crawl_env crawl_loader fresh)
     = Some [''A'', '' '']
   \<and> [] \<notin> set [''A'', '' '']
   \<and> dict_get [(''markdown'', JStr []), (''sourceURL'', JStr ''https://example.com/b'')] ''markdown''
        (dict_get [(''markdown'', JStr []), (''sourceURL'', JStr ''https://example.com/b'')] ''content''
           (JStr [])) = JStr []"
  using emitted_documents_have_content [of crawl_env crawl_loader fresh] crawl_run crawl_run_async
  by (simp add: dict_get_def)

section \<open>Order of the documents\<close>

lemma lazy_load_urls_append:
  "lazy_load_urls E L (us @ vs) w =
     (case lazy_load_urls E L us w of
        None \<Rightarrow> None
      | Some ((ds, Some e), w1) \<Rightarrow> Some ((ds, Some e), w1)
      | Some ((ds, None), w1) \<Rightarrow>
          (case lazy_load_urls E L vs w1 of
             None \<Rightarrow> None
           | Some ((ds', e), w2) \<Rightarrow> Some ((ds @ ds', e), w2)))"
proof (induction us arbitrary: w)
  case Nil
  show ?case by (simp split: option.splits prod.splits)
next
  case (Cons u us)
  let ?fetch = "if mode L = SCRAPE
            then Some (scrape_url E L u (emit DEBUG [Lit ''Scraping URL: '', Lit u] w))
            else if mode L = CRAWL
            then crawl_url E L u (emit DEBUG [Lit ''Crawling URL: '', Lit u] w)
            else Some (Inr [],
                   emit ERROR [Lit ''Unknown FireCrawl mode: '', StrMode (mode L),
                     Lit '' for URL: '', Lit u] w)"
  show ?case
  proof (cases ?fetch)
    case None
    then show ?thesis by simp
  next
    case (Some rw)
    obtain r w1 where rw: "rw = (r, w1)" by (cases rw)
    show ?thesis
    proof (cases r)
      case (Inl x)
      with Some rw show ?thesis by simp
    next
      case (Inr ds1)
      with Some rw Cons.IH [of w1] show ?thesis
        by (simp split: option.splits prod.splits)
    qed
  qed
qed

text \<open>
  Claim C7. For any split of the locators into a first and a second part, the iteration
  over all of them is the iteration over the first part followed, when that ended without
  an exception, by the iteration over the second part from the state the first part left:
  its documents come after those of the first part, and every request for a locator is
  made before the first request for the next. The documents of a completed job are those
  of its pages, page by page in the order of the list the service sent.
\<close>

theorem documents_follow_locators_and_pages:
  "(urls L = us @ vs \<longrightarrow>
      lazy_load E L w =
        (case lazy_load_urls E L us w of
           None \<Rightarrow> None
         | Some ((ds, Some e), w1) \<Rightarrow> Some ((ds, Some e), w1)
         | Some ((ds, None), w1) \<Rightarrow>
             (case lazy_load_urls E L vs w1 of
                None \<Rightarrow> None
              | Some ((ds', e), w2) \<Rightarrow> Some ((ds @ ds', e), w2))))
   \<and> (fst (collect_results_sync j (JList pages) u w) = Inr ds0 \<longrightarrow>
        ds0 = concat (map (page_documents j u) pages))"
  using lazy_load_urls_append [of E L us vs w] collect_results_sync_docs [of j pages u w ds0]
  by (simp add: lazy_load_def)

text \<open>
  Three locators split after the first, and the job of three pages: the documents come
  in the order of the locators and of the pages.
\<close>

theorem documents_order_witness:
  "urls scrape_loader = [''https://a.example''] @ [''https://b.example'', ''https://c.example'']
   \<and> map_option (map_prod (map_prod (map page_content) id) (length \<circ> sent))
        (lazy_load scrape_env scrape_loader fresh)
      = Some (([''# Hi'', ''Third''], None), 3)
   \<and> map (map page_content) (map (page_documents (JStr ''job1'') ''https://example.com'') job_pages)
       = [[''A''], [], ['' '']]
   \<and> map_sum id (map page_content)
         (fst (collect_results_sync (JStr ''job1'') (JList job_pages) ''https://example.com'' fresh))
       = Inr [''A'', '' '']"
proof -
  have u: "urls scrape_loader
           = [''https://a.example''] @ [''https://b.example'', ''https://c.example'']"
    by (simp add: scrape_loader_def loader_of_def)
  have p: "map (map page_content)
             (map (page_documents (JStr ''job1'') ''https://example.com'') job_pages)
           = [[''A''], [], ['' '']]"
    by (simp add: job_pages_def page_documents_def collect_item_def crawl_metadata_def
          dict_get_def fresh_def emit_def Let_def)
  have c: "map_sum id (map page_content)
         (fst (collect_results_sync (JStr ''job1'') (JList job_pages) ''https://example.com'' fresh))
       = Inr [''A'', '' '']"
    by (simp add: job_pages_def collect_results_sync_def collect_item_def crawl_metadata_def
          dict_get_def fresh_def emit_def Let_def)
  from documents_follow_locators_and_pages
    [of scrape_loader "[''https://a.example'']" "[''https://b.example'', ''https://c.example'']"
        scrape_env fresh "JStr ''job1''" job_pages "''https://example.com''"]
    scrape_run u p c
  show ?thesis by simp
qed

section \<open>Whitespace-only content\<close>

text \<open>
  Claim C9. For a content that is not empty and consists of whitespace only, scraping
  returns no document, while the loop over crawled pages builds a document with that
  content: the crawl path tests only whether the content is false, the scrape path also
  whether it is blank after \<^verbatim>\<open>strip()\<close>.
\<close>

theorem whitespace_only_content_scrape_and_crawl:
  assumes "s \<noteq> []" and "strip s = []"
  shows "(fst (scrape_extract E L u w) = Inr (data, JStr s) \<longrightarrow> fst (scrape_url E L u w) = Inr [])
       \<and> (dict_get item ''markdown'' (dict_get item ''content'' (JStr [])) = JStr s
            \<and> dict_get item ''metadata'' (JObj []) = JObj fm \<longrightarrow>
          (\<exists>md. fst (collect_item j (JObj item) u w) = Inr (Some \<lparr>page_content = s, metadata = md\<rparr>)))"
  using assms
  by (simp add: scrape_url_fst [where ?w0.0 = w] scrape_document_def collect_item_def Let_def)

text \<open>
  One space: the scraped page with that content yields nothing, the crawled page with that
  content is yielded.
\<close>

theorem whitespace_only_content_witness:
  "'' '' \<noteq> [] \<and> strip '' '' = []
   \<and> scrape_script ! 1 = ok (JObj [(''success'', JBool True), (''data'', JObj [(''markdown'', JStr '' '')])])
   \<and> map_option (map_prod (map_prod (map page_content) id) (length \<circ> sent))
        (lazy_load scrape_env scrape_loader fresh)
      = Some (([''# Hi'', ''Third''], None), 3)
   \<and> map_option (map page_content \<circ> fst \<circ> fst) (lazy_load crawl_env crawl_loader fresh)
       = Some [''A'', '' '']"
proof -
  have s: "'' '' \<noteq> []" "strip '' '' = []"
    by (simp_all add: strip_def isspace_def)
  have r: "scrape_script ! 1
           = ok (JObj [(''success'', JBool True), (''data'', JObj [(''markdown'', JStr '' '')])])"
    by (simp add: scrape_script_def)
  from whitespace_only_content_scrape_and_crawl [OF s] scrape_run crawl_run s r
  show ?thesis by simp
qed

section \<open>The deadline of the polling\<close>

lemma poll_iteration_timeout:
  assumes "clock E (reads w) - st > 600"
  shows "poll_iteration E L j su u st w =
           (Some (Inl (Exception (timeout_msg j u))),
            emit ERROR (timeout_msg j u) (w\<lparr>reads := Suc (reads w)\<rparr>))"
  using assms by (simp add: poll_iteration_def time_time_def max_wait_time_def Let_def)

lemma poll_iteration_in_progress:
  assumes "\<not> clock E (reads w) - st > 600" and "in_progress (service E (length (sent w)))"
  shows "\<exists>w'. poll_iteration E L j su u st w = (None, w')
           \<and> sent w' = sent w @ [GET su (get_headers L)]
           \<and> reads w' = Suc (reads w)
           \<and> slept w' = slept w @ [5]"
  using assms
  by (auto simp add: poll_iteration_def time_time_def max_wait_time_def in_progress_def
        send_json_def Let_def time_sleep_def poll_interval_def emit_def
        split: response.splits option.splits json.splits sum.splits)

lemma poll_loop_timeout:
  assumes "\<forall>i<k. in_progress (service E (length (sent w) + i))
                  \<and> \<not> clock E (reads w + i) - st > 600"
    and "clock E (reads w + k) - st > 600"
  shows "\<exists>w'. poll_loop E L j su u st w = Some (Inl (Exception (timeout_msg j u)), w')
           \<and> sent w' = sent w @ replicate k (GET su (get_headers L))
           \<and> reads w' = Suc (reads w + k)
           \<and> slept w' = slept w @ replicate k 5"
  using assms
proof (induction k arbitrary: w)
  case 0
  then show ?case
    by (subst poll_loop.simps) (simp add: poll_iteration_timeout)
next
  case (Suc k)
  from Suc.prems(1) have now: "in_progress (service E (length (sent w)))"
      "\<not> clock E (reads w) - st > 600"
    by (metis add.right_neutral zero_less_Suc)+
  from poll_iteration_in_progress [OF now(2) now(1), of L j su u]
  obtain w1 where it: "poll_iteration E L j su u st w = (None, w1)"
    and w1: "sent w1 = sent w @ [GET su (get_headers L)]" "reads w1 = Suc (reads w)"
      "slept w1 = slept w @ [5]"
    by blast
  have "\<forall>i<k. in_progress (service E (length (sent w1) + i))
                  \<and> \<not> clock E (reads w1 + i) - st > 600"
  proof (intro allI impI)
    fix i assume "i < k"
    then have "Suc i < Suc k" by simp
    with Suc.prems(1) have "in_progress (service E (length (sent w) + Suc i))
                  \<and> \<not> clock E (reads w + Suc i) - st > 600" by blast
    then show "in_progress (service E (length (sent w1) + i))
                  \<and> \<not> clock E (reads w1 + i) - st > 600"
      using w1 by simp
  qed
  moreover have "clock E (reads w1 + k) - st > 600"
    using Suc.prems(2) w1 by simp
  ultimately obtain w' where
    "poll_loop E L j su u st w1 = Some (Inl (Exception (timeout_msg j u)), w')"
    "sent w' = sent w1 @ replicate k (GET su (get_headers L))"
    "reads w' = Suc (reads w1 + k)"
    "slept w' = slept w1 @ replicate k 5"
    using Suc.IH [of w1] by blast
  with it w1 show ?case
    by (subst poll_loop.simps) (simp add: replicate_app_Cons_same)
qed

text \<open>
  Claim C4. The polling reads the clock once before the loop and once at the start of
  every pass. If the first \<open>k\<close> polls are answered by responses that leave the job in
  progress, none of them starting later than 600 seconds after the first reading, and
  the next pass starts more than 600 seconds after it, then the polling raises the
  timeout exception, whose message names the job identifier and the locator; it has sent
  exactly those \<open>k\<close> status requests, slept after each, and sends no other.
\<close>

theorem polling_deadline:
  assumes "\<forall>i<k. in_progress (service E (length (sent w) + i))
                  \<and> \<not> clock E (Suc (reads w) + i) - clock E (reads w) > 600"
    and "clock E (Suc (reads w) + k) - clock E (reads w) > 600"
  shows "\<exists>w'. poll_crawl_status_sync E L j su u w =
             Some (Inl (Exception
                 [Lit ''Timeout waiting for FireCrawl job '', str_of j, Lit '' (URL: '', Lit u,
                  Lit '') to complete after '', Str (JInt 600), Lit '' seconds.'']), w')
           \<and> sent w' = sent w @ replicate k (GET su (get_headers L))
           \<and> slept w' = slept w @ replicate k 5"
proof -
  let ?w0 = "(emit INFO [Lit ''Starting sync polling for FireCrawl job '', str_of j,
                Lit '' (URL: '', Lit u, Lit '').''] w)\<lparr>reads := Suc (reads w)\<rparr>"
  have "\<forall>i<k. in_progress (service E (length (sent ?w0) + i))
                  \<and> \<not> clock E (reads ?w0 + i) - clock E (reads w) > 600"
    using assms(1) by simp
  moreover have "clock E (reads ?w0 + k) - clock E (reads w) > 600"
    using assms(2) by simp
  ultimately obtain w' where
    loop: "poll_loop E L j su u (clock E (reads w)) ?w0 =
             Some (Inl (Exception (timeout_msg j u)), w')"
    and eff: "sent w' = sent ?w0 @ replicate k (GET su (get_headers L))"
      "slept w' = slept ?w0 @ replicate k 5"
    using poll_loop_timeout [of k E ?w0 "clock E (reads w)" L j su u] by blast
  have "poll_crawl_status_sync E L j su u w =
          Some (Inl (Exception (timeout_msg j u)), poll_except j u (Exception (timeout_msg j u)) w')"
    using loop by (simp add: poll_crawl_status_sync_def time_time_def emit_def)
  moreover have "sent (poll_except j u (Exception (timeout_msg j u)) w') = sent w'"
    "slept (poll_except j u (Exception (timeout_msg j u)) w') = slept w'"
    by (simp_all add: poll_except_def)
  ultimately show ?thesis
    using eff by (simp add: timeout_msg_def max_wait_time_def)
qed

text \<open>
  Two polls in progress at 250 and 500 seconds, the third pass at 750: the polling
  raises the timeout after two requests, and the iteration over the locators ends with it.
\<close>

theorem polling_deadline_witness:
  "in_progress (service poll_env 0) \<and> in_progress (service poll_env 1)
   \<and> \<not> clock poll_env 1 - clock poll_env 0 > 600
   \<and> \<not> clock poll_env 2 - clock poll_env 0 > 600
   \<and> clock poll_env 3 - clock poll_env 0 > 600
   \<and> map_option (map_prod id (length \<circ> sent))
        (poll_crawl_status_sync poll_env crawl_loader (JStr ''job1'')
           ''http://localhost:3002/v1/crawl/job1'' ''https://example.com'' fresh)
      = Some (Inl (Exception
          [Lit ''Timeout waiting for FireCrawl job '', Lit ''job1'', Lit '' (URL: '',
           Lit ''https://example.com'', Lit '') to complete after '', Str (JInt 600),
           Lit '' seconds.'']), 2)"
proof -
  have p: "in_progress (service poll_env 0)" "in_progress (service poll_env 1)"
    by (simp_all add: poll_env_def slow_script_def in_progress_def progress_of_def dict_get_def
          scripted_def ok_def)
  have c: "\<not> clock poll_env 1 - clock poll_env 0 > 600"
    "\<not> clock poll_env 2 - clock poll_env 0 > 600"
    "clock poll_env 3 - clock poll_env 0 > 600"
    by (simp_all add: poll_env_def scripted_def)
  have h: "\<forall>i<2. in_progress (service poll_env (length (sent fresh) + i))
                  \<and> \<not> clock poll_env (Suc (reads fresh) + i) - clock poll_env (reads fresh) > 600"
    by (simp add: fresh_def All_less_Suc numeral_2_eq_2 poll_env_def slow_script_def
          in_progress_def progress_of_def dict_get_def scripted_def ok_def)
  have d: "clock poll_env (Suc (reads fresh) + 2) - clock poll_env (reads fresh) > 600"
    by (simp add: fresh_def poll_env_def scripted_def)
  from polling_deadline [OF h d, of crawl_loader "JStr ''job1''"
      "''http://localhost:3002/v1/crawl/job1''" "''https://example.com''"]
  obtain w' where
    "poll_crawl_status_sync poll_env crawl_loader (JStr ''job1'')
       ''http://localhost:3002/v1/crawl/job1'' ''https://example.com'' fresh
     = Some (Inl (Exception
          [Lit ''Timeout waiting for FireCrawl job '', str_of (JStr ''job1''), Lit '' (URL: '',
           Lit ''https://example.com'', Lit '') to complete after '', Str (JInt 600),
           Lit '' seconds.'']), w')"
    "sent w' = sent fresh @ replicate 2 (GET ''http://localhost:3002/v1/crawl/job1''
                                            (get_headers crawl_loader))"
    by blast
  with p c show ?thesis by (simp add: str_of_def fresh_def)
qed

section \<open>Metadata of the documents\<close>

lemma dict_set_map_of: "map_of (dict_set d k v) = (map_of d)(k \<mapsto> v)"
  by (simp add: dict_set_def update_conv')

lemma add_scrape_metadata_Cons:
  "add_scrape_metadata m ((k, v) # fm) =
     add_scrape_metadata
       (if k \<noteq> ''title'' \<and> k \<noteq> ''description'' \<and> v \<noteq> JNull
        then dict_set m (''firecrawl_'' @ k) (py_str v) else m) fm"
  by (simp add: add_scrape_metadata_def)

lemma add_scrape_metadata_other:
  "k \<notin> fst ` set fm \<Longrightarrow>
     map_of (add_scrape_metadata m fm) (''firecrawl_'' @ k) = map_of m (''firecrawl_'' @ k)"
proof (induction fm arbitrary: m)
  case Nil
  show ?case by (simp add: add_scrape_metadata_def)
next
  case (Cons kv fm)
  obtain k' v' where kv: "kv = (k', v')" by (cases kv)
  with Cons.prems have "k' \<noteq> k" "k \<notin> fst ` set fm" by auto
  with Cons.IH kv show ?case
    by (simp add: add_scrape_metadata_Cons dict_set_map_of)
qed

lemma add_scrape_metadata_key:
  assumes "distinct (map fst fm)" and "(k, v) \<in> set fm"
    and "k \<noteq> ''title''" and "k \<noteq> ''description''" and "v \<noteq> JNull"
  shows "map_of (add_scrape_metadata m fm) (''firecrawl_'' @ k) = Some (py_str v)"
  using assms(1,2)
proof (induction fm arbitrary: m)
  case Nil
  then show ?case by simp
next
  case (Cons kv fm)
  obtain k' v' where kv: "kv = (k', v')" by (cases kv)
  show ?case
  proof (cases "kv = (k, v)")
    case True
    with Cons.prems have "k \<notin> fst ` set fm" by auto
    then have "map_of (add_scrape_metadata (dict_set m (''firecrawl_'' @ k) (py_str v)) fm)
                 (''firecrawl_'' @ k)
             = map_of (dict_set m (''firecrawl_'' @ k) (py_str v)) (''firecrawl_'' @ k)"
      by (rule add_scrape_metadata_other)
    with True assms(3-5) show ?thesis
      by (simp add: add_scrape_metadata_Cons dict_set_map_of)
  next
    case False
    with Cons.prems have "(k, v) \<in> set fm" "distinct (map fst fm)" by auto
    with Cons.IH kv show ?thesis by (simp add: add_scrape_metadata_Cons)
  qed
qed

lemma py_str_is_str [simp]: "is_str (py_str v)"
  by (cases v) (simp_all add: py_str_def)

lemma add_crawl_metadata_Cons:
  "add_crawl_metadata m ((k, v) # fm) =
     add_crawl_metadata
       (if k \<notin> set (map fst m) then dict_set m (''firecrawl_'' @ k) (Val v) else m) fm"
  by (simp add: add_crawl_metadata_def)

lemma add_crawl_metadata_append:
  "add_crawl_metadata m (pre @ post) = add_crawl_metadata (add_crawl_metadata m pre) post"
  by (simp add: add_crawl_metadata_def)

lemma add_crawl_metadata_other:
  "k \<notin> fst ` set fm \<Longrightarrow>
     map_of (add_crawl_metadata m fm) (''firecrawl_'' @ k) = map_of m (''firecrawl_'' @ k)"
proof (induction fm arbitrary: m)
  case Nil
  show ?case by (simp add: add_crawl_metadata_def)
next
  case (Cons kv fm)
  obtain k' v' where kv: "kv = (k', v')" by (cases kv)
  with Cons.prems have "k' \<noteq> k" "k \<notin> fst ` set fm" by auto
  with Cons.IH kv show ?case
    by (simp add: add_crawl_metadata_Cons dict_set_map_of)
qed

lemma add_crawl_metadata_key:
  assumes "distinct (map fst (pre @ (k, v) # post))"
    and "k \<notin> set (map fst (add_crawl_metadata m pre))"
  shows "map_of (add_crawl_metadata m (pre @ (k, v) # post)) (''firecrawl_'' @ k) = Some (Val v)"
proof -
  from assms(1) have "k \<notin> fst ` set post" by auto
  then have "map_of (add_crawl_metadata
                 (dict_set (add_crawl_metadata m pre) (''firecrawl_'' @ k) (Val v)) post)
               (''firecrawl_'' @ k)
           = map_of (dict_set (add_crawl_metadata m pre) (''firecrawl_'' @ k) (Val v))
               (''firecrawl_'' @ k)"
    by (rule add_crawl_metadata_other)
  with assms(2) show ?thesis
    by (simp add: add_crawl_metadata_append add_crawl_metadata_Cons dict_set_map_of)
qed

text \<open>
  Claim C3, as it is stated, fails in three ways. In a crawled document a list value is
  stored as the list it is, not as a string; an extra field whose key the document's
  metadata has already (here \<^verbatim>\<open>url\<close>) is not merged at all; and in a scraped document an
  extra field whose value is \<^verbatim>\<open>None\<close> is not merged.
\<close>

theorem extra_metadata_not_always_merged_or_converted:
  "fst (collect_item (JStr ''job1'')
          (JObj [(''markdown'', JStr ''A''),
                 (''metadata'', JObj [(''tags'', JList [JStr ''a'']), (''url'', JStr ''x'')])])
          ''https://example.com'' fresh)
     = Inr (Some \<lparr>page_content = ''A'',
              metadata =
                [(''source'', Val (JStr ''https://example.com'')),
                 (''title'', Val (JStr [])),
                 (''description'', Val (JStr [])),
                 (''url'', Val (JStr ''https://example.com'')),
                 (''firecrawl_mode'', Val (JStr ''crawl'')),
                 (''job_id'', Val (JStr ''job1'')),
                 (''original_url'', Val (JStr ''https://example.com'')),
                 (''firecrawl_tags'', Val (JList [JStr ''a'']))]\<rparr>)
   \<and> \<not> is_str (Val (JList [JStr ''a'']))
   \<and> scrape_metadata ''https://example.com''
         [(''markdown'', JStr ''A''), (''metadata'', JObj [(''n'', JNull)])] ''A''
     = [(''source'', Val (JStr ''https://example.com'')),
        (''url'', Val (JStr ''https://example.com'')),
        (''firecrawl_mode'', Val (JStr ''scrape'')),
        (''content_length'', Val (JInt 1)),
        (''title'', Val (JStr [])),
        (''description'', Val (JStr []))]"
  by (simp add: collect_item_def crawl_metadata_def add_crawl_metadata_def scrape_metadata_def
        add_scrape_metadata_def dict_get_def dict_set_def Let_def)

text \<open>
  Claim C3, amended. The keys of the page's metadata are distinct, as those of a \<^verbatim>\<open>dict\<close>
  are. In a scraped document every extra field, other than title and description, whose
  value is not \<^verbatim>\<open>None\<close> is found under its key with the prefix \<^verbatim>\<open>firecrawl_\<close>, as the
  string \<^verbatim>\<open>str(value)\<close>. In a crawled document every extra field whose key is not a key of
  the document's metadata when the loop reaches it is found under its key with the prefix;
  the statement leaves open whether its value is converted to a string.
\<close>

theorem extra_metadata_merged_under_prefix:
  "(fst (scrape_document url data c w) = Inr [d]
      \<and> map_of data ''metadata'' = Some (JObj fm) \<and> distinct (map fst fm)
      \<and> (k, v) \<in> set fm \<and> k \<noteq> ''title'' \<and> k \<noteq> ''description'' \<and> v \<noteq> JNull
    \<longrightarrow> map_of (metadata d) (''firecrawl_'' @ k) = Some (py_str v) \<and> is_str (py_str v))
   \<and> (fst (collect_item j (JObj item) u w) = Inr (Some d')
      \<and> map_of item ''metadata'' = Some (JObj (pre @ (k', v') # post))
      \<and> distinct (map fst (pre @ (k', v') # post))
      \<and> k' \<notin> set (map fst (add_crawl_metadata
                 (crawl_metadata j (dict_get item ''sourceURL'' (JStr u)) u (pre @ (k', v') # post))
                 pre))
    \<longrightarrow> map_of (metadata d') (''firecrawl_'' @ k') \<in> {Some (Val v'), Some (py_str v')})"
proof (intro conjI impI)
  assume a: "fst (scrape_document url data c w) = Inr [d]
      \<and> map_of data ''metadata'' = Some (JObj fm) \<and> distinct (map fst fm)
      \<and> (k, v) \<in> set fm \<and> k \<noteq> ''title'' \<and> k \<noteq> ''description'' \<and> v \<noteq> JNull"
  then obtain s where d: "metadata d = scrape_metadata url data s"
    by (auto simp add: scrape_document_def split: if_splits json.splits)
  from a have "map_of (add_scrape_metadata
        (dict_set (dict_set
           [(''source'', Val (JStr url)), (''url'', Val (JStr url)),
            (''firecrawl_mode'', Val (JStr ''scrape'')),
            (''content_length'', Val (JInt (int (length s))))]
           ''title'' (Val (dict_get fm ''title'' (JStr []))))
           ''description'' (Val (dict_get fm ''description'' (JStr [])))) fm)
        (''firecrawl_'' @ k) = Some (py_str v)"
    by (intro add_scrape_metadata_key) simp_all
  with a d show "map_of (metadata d) (''firecrawl_'' @ k) = Some (py_str v)"
    by (simp add: scrape_metadata_def)
  show "is_str (py_str v)" by simp
next
  let ?fm = "pre @ (k', v') # post"
  let ?m = "crawl_metadata j (dict_get item ''sourceURL'' (JStr u)) u ?fm"
  assume a: "fst (collect_item j (JObj item) u w) = Inr (Some d')
      \<and> map_of item ''metadata'' = Some (JObj ?fm)
      \<and> distinct (map fst ?fm)
      \<and> k' \<notin> set (map fst (add_crawl_metadata ?m pre))"
  then have "(''metadata'', JObj ?fm) \<in> set item"
    by (intro map_of_SomeD) simp
  then have key: "''metadata'' \<in> set (map fst item)"
    by force
  from a have get: "dict_get item ''metadata'' (JObj []) = JObj ?fm"
    by (simp add: dict_get_def)
  from a key get have "metadata d' = add_crawl_metadata ?m ?fm"
    by (auto simp add: collect_item_def Let_def split: if_splits json.splits)
  moreover from a have "map_of (add_crawl_metadata ?m ?fm) (''firecrawl_'' @ k') = Some (Val v')"
    by (intro add_crawl_metadata_key) simp_all
  ultimately show "map_of (metadata d') (''firecrawl_'' @ k') \<in> {Some (Val v'), Some (py_str v')}"
    by simp
qed

lemma tagged_item_collected:
  "fst (collect_item (JStr ''job1'') (JObj tagged_item) ''https://example.com'' fresh)
     = Inr (Some tagged_document)"
  by (simp add: tagged_item_def tagged_document_def collect_item_def crawl_metadata_def
        add_crawl_metadata_def dict_get_def dict_set_def Let_def)

lemma scraped_data_document:
  "fst (scrape_document ''https://example.com'' scraped_data (JStr ''A'') fresh)
     = Inr [scraped_document]"
  by (simp add: scraped_data_def scraped_document_def scrape_document_def scrape_metadata_def
        add_scrape_metadata_def dict_get_def dict_set_def Let_def strip_def isspace_def py_str_def)

text \<open>
  The field \<^verbatim>\<open>tags\<close> of the scraped and of the crawled page above.
\<close>

theorem extra_metadata_witness:
  "fst (scrape_document ''https://example.com'' scraped_data (JStr ''A'') fresh)
     = Inr [scraped_document]
   \<and> map_of scraped_data ''metadata''
     = Some (JObj [(''title'', JStr ''Ex''), (''tags'', JList [JStr ''a'']), (''n'', JNull)])
   \<and> map_of (metadata scraped_document) ''firecrawl_tags'' = Some (StrOf (JList [JStr ''a'']))
   \<and> fst (collect_item (JStr ''job1'') (JObj tagged_item) ''https://example.com'' fresh)
     = Inr (Some tagged_document)
   \<and> map_of tagged_item ''metadata''
     = Some (JObj ([] @ (''tags'', JList [JStr ''a'']) # [(''url'', JStr ''x'')]))
   \<and> map_of (metadata tagged_document) ''firecrawl_tags'' = Some (Val (JList [JStr ''a'']))"
  using extra_metadata_merged_under_prefix
    [of "''https://example.com''" scraped_data "JStr ''A''" fresh scraped_document
        "[(''title'', JStr ''Ex''), (''tags'', JList [JStr ''a'']), (''n'', JNull)]"
        "''tags''" "JList [JStr ''a'']"
        "JStr ''job1''" tagged_item "''https://example.com''" tagged_document
        "[]" "''tags''" "JList [JStr ''a'']" "[(''url'', JStr ''x'')]"]
    tagged_item_collected scraped_data_document
  by (simp add: scraped_data_def scraped_document_def tagged_item_def tagged_document_def)

end
